theory Spec2Isabelle
  imports Complex_Main "HOL-Library.Sublist" "HOL-Library.AList" "HOL-Library.Multiset"
    "HOL-Library.List_Lexorder" "HOL-Library.Char_ord"
begin

section \<open>Python values\<close>

text \<open>
  The monitor builds and inspects plain Python dictionaries (\<^verbatim>\<open>Dict[str, Any]\<close>).
  A value is one of the JSON-like shapes the program handles. A dictionary is an
  association list in insertion order; every key of the program is a \<^verbatim>\<open>str\<close>.
  Finite floats and integers are compared by Python by their exact numeric value, so a
  float is carried as the rational it denotes (NaN and the infinities are outside the
  model).
\<close>

datatype pyval =
    PNone
  | PBool bool
  | PInt int
  | PFloat rat
  | PStr string
  | PList "pyval list"
  | PTuple "pyval list"
  | PDict "(string \<times> pyval) list"

type_synonym pydict = "(string \<times> pyval) list"

text \<open>The exceptions that \<^verbatim>\<open>check_alerts\<close> itself can raise.\<close>

datatype error = KeyError string | TypeError

text \<open>Sequencing of a computation that may raise: the first exception wins.\<close>

fun andthen :: "'e + 'a \<Rightarrow> ('a \<Rightarrow> 'e + 'b) \<Rightarrow> 'e + 'b" where
  "andthen (Inl e) f = Inl e"
| "andthen (Inr x) f = f x"

text \<open>
  \<^verbatim>\<open>k in v\<close> for a \<^verbatim>\<open>str\<close> \<open>k\<close>: key membership on a dict, substring test on a
  str, element membership on a list or tuple, \<^verbatim>\<open>TypeError\<close> on a value that is not
  a container.
\<close>

definition py_in :: "string \<Rightarrow> pyval \<Rightarrow> error + bool" where
  "py_in k v =
     (case v of
        PDict d \<Rightarrow> Inr (k \<in> set (map fst d))
      | PStr s \<Rightarrow> Inr (sublist k s)
      | PList xs \<Rightarrow> Inr (PStr k \<in> set xs)
      | PTuple xs \<Rightarrow> Inr (PStr k \<in> set xs)
      | _ \<Rightarrow> Inl TypeError)"

text \<open>
  \<^verbatim>\<open>v[k]\<close> for a \<^verbatim>\<open>str\<close> \<open>k\<close>: lookup on a dict (\<^verbatim>\<open>KeyError\<close> when absent);
  every other value rejects a \<^verbatim>\<open>str\<close> subscript with \<^verbatim>\<open>TypeError\<close>.
\<close>

definition py_getitem :: "pyval \<Rightarrow> string \<Rightarrow> error + pyval" where
  "py_getitem v k =
     (case v of
        PDict d \<Rightarrow> (case map_of d k of None \<Rightarrow> Inl (KeyError k) | Some x \<Rightarrow> Inr x)
      | _ \<Rightarrow> Inl TypeError)"

text \<open>
  The numeric value of an int, a float or a bool (\<^verbatim>\<open>True\<close> is 1, \<^verbatim>\<open>False\<close> is 0);
  no other value is a number.
\<close>

definition number_of :: "pyval \<Rightarrow> rat option" where
  "number_of v =
     (case v of
        PInt i \<Rightarrow> Some (of_int i)
      | PFloat x \<Rightarrow> Some x
      | PBool b \<Rightarrow> Some (if b then 1 else 0)
      | _ \<Rightarrow> None)"

definition is_number :: "pyval \<Rightarrow> bool" where
  "is_number v = (case number_of v of Some x \<Rightarrow> True | None \<Rightarrow> False)"

text \<open>
  \<^verbatim>\<open>v > t\<close> for a \<^verbatim>\<open>float\<close> \<open>t\<close>: numeric comparison when \<open>v\<close> is a number,
  \<^verbatim>\<open>TypeError\<close> otherwise.
\<close>

definition py_gt :: "pyval \<Rightarrow> rat \<Rightarrow> error + bool" where
  "py_gt v t =
     (case number_of v of
        Some x \<Rightarrow> Inr (x > t)
      | None \<Rightarrow> Inl TypeError)"

section \<open>The monitor and its thresholds\<close>

text \<open>
  \<^verbatim>\<open>SystemHealthMonitor\<close> has one attribute, \<^verbatim>\<open>alert_thresholds: Dict[str, float]\<close>.
\<close>

record monitor =
  alert_thresholds :: "(string \<times> rat) list"

definition default_thresholds :: "(string \<times> rat) list" where
  "default_thresholds =
     [(''cpu_percent'', 80), (''memory_percent'', 85), (''disk_percent'', 90)]"

text \<open>
  \<^verbatim>\<open>__init__\<close>: \<^verbatim>\<open>self.alert_thresholds = alert_thresholds or {...}\<close>. The argument
  defaults to \<^verbatim>\<open>None\<close>; \<^verbatim>\<open>None\<close> and the empty dict are falsy, every other dict is
  kept as it is.
\<close>

definition init :: "(string \<times> rat) list option \<Rightarrow> monitor" where
  "init arg =
     \<lparr>alert_thresholds =
        (case arg of
           None \<Rightarrow> default_thresholds
         | Some d \<Rightarrow> if d = [] then default_thresholds else d)\<rparr>"

text \<open>\<^verbatim>\<open>self.alert_thresholds[k]\<close>.\<close>

definition threshold :: "monitor \<Rightarrow> string \<Rightarrow> error + rat" where
  "threshold self k =
     (case map_of (alert_thresholds self) k of
        None \<Rightarrow> Inl (KeyError k)
      | Some t \<Rightarrow> Inr t)"

section \<open>Alert evaluation\<close>

text \<open>
  The three f-strings of \<^verbatim>\<open>check_alerts\<close>. \<open>fmt\<close> stands for Python's formatting of
  a value inside an f-string (\<^verbatim>\<open>format(v, '')\<close>); a \<^verbatim>\<open>str\<close> mount point is inserted
  as it is.
\<close>

definition cpu_message :: "(pyval \<Rightarrow> string) \<Rightarrow> pyval \<Rightarrow> rat \<Rightarrow> string" where
  "cpu_message fmt v t =
     ''HIGH CPU USAGE: '' @ fmt v @ ''% (threshold: '' @ fmt (PFloat t) @ ''%)''"

definition memory_message :: "(pyval \<Rightarrow> string) \<Rightarrow> pyval \<Rightarrow> rat \<Rightarrow> string" where
  "memory_message fmt v t =
     ''HIGH MEMORY USAGE: '' @ fmt v @ ''% (threshold: '' @ fmt (PFloat t) @ ''%)''"

definition disk_message :: "(pyval \<Rightarrow> string) \<Rightarrow> string \<Rightarrow> pyval \<Rightarrow> rat \<Rightarrow> string" where
  "disk_message fmt mount_point v t =
     ''HIGH DISK USAGE: '' @ mount_point @ '' at '' @ fmt v
       @ ''% (threshold: '' @ fmt (PFloat t) @ ''%)''"

text \<open>
  One metric against one threshold: read the value, read the threshold, compare, append
  the message when the value is strictly greater. This is the body shared by the CPU,
  memory and disk checks once their guards have passed.
\<close>

definition check_value ::
  "monitor \<Rightarrow> pyval \<Rightarrow> string \<Rightarrow> string \<Rightarrow> (pyval \<Rightarrow> rat \<Rightarrow> string) \<Rightarrow> string list
     \<Rightarrow> error + string list" where
  "check_value self container key tkey message alerts =
     andthen (py_getitem container key) (\<lambda>v.
     andthen (threshold self tkey) (\<lambda>t.
     andthen (py_gt v t) (\<lambda>g.
       Inr (if g then alerts @ [message v t] else alerts))))"

text \<open>
  \<^verbatim>\<open>if 'cpu_info' in health_data and 'cpu_percent' in health_data['cpu_info']: ...\<close>
\<close>

definition check_cpu ::
  "(pyval \<Rightarrow> string) \<Rightarrow> monitor \<Rightarrow> pydict \<Rightarrow> string list \<Rightarrow> error + string list" where
  "check_cpu fmt self health_data alerts =
     (case map_of health_data ''cpu_info'' of
        None \<Rightarrow> Inr alerts
      | Some cpu_info \<Rightarrow>
          andthen (py_in ''cpu_percent'' cpu_info) (\<lambda>present.
            if present
            then check_value self cpu_info ''cpu_percent'' ''cpu_percent''
                   (cpu_message fmt) alerts
            else Inr alerts))"

definition check_memory ::
  "(pyval \<Rightarrow> string) \<Rightarrow> monitor \<Rightarrow> pydict \<Rightarrow> string list \<Rightarrow> error + string list" where
  "check_memory fmt self health_data alerts =
     (case map_of health_data ''memory_info'' of
        None \<Rightarrow> Inr alerts
      | Some memory_info \<Rightarrow>
          andthen (py_in ''memory_percent'' memory_info) (\<lambda>present.
            if present
            then check_value self memory_info ''memory_percent'' ''memory_percent''
                   (memory_message fmt) alerts
            else Inr alerts))"

text \<open>
  The body of the loop over \<^verbatim>\<open>disk_info.items()\<close>: an item whose value is not a dict,
  or is a dict without \<^verbatim>\<open>'percent'\<close>, is passed over.
\<close>

definition check_mount ::
  "(pyval \<Rightarrow> string) \<Rightarrow> monitor \<Rightarrow> string \<times> pyval \<Rightarrow> string list \<Rightarrow> error + string list" where
  "check_mount fmt self item alerts =
     (case item of (mount_point, disk_data) \<Rightarrow>
        (case disk_data of
           PDict d \<Rightarrow>
             if ''percent'' \<in> set (map fst d)
             then check_value self disk_data ''percent'' ''disk_percent''
                    (disk_message fmt mount_point) alerts
             else Inr alerts
         | _ \<Rightarrow> Inr alerts))"

fun disk_loop ::
  "(pyval \<Rightarrow> string) \<Rightarrow> monitor \<Rightarrow> pydict \<Rightarrow> string list \<Rightarrow> error + string list" where
  "disk_loop fmt self [] alerts = Inr alerts"
| "disk_loop fmt self (item # items) alerts =
     (case check_mount fmt self item alerts of
        Inl e \<Rightarrow> Inl e
      | Inr alerts' \<Rightarrow> disk_loop fmt self items alerts')"

definition check_disk ::
  "(pyval \<Rightarrow> string) \<Rightarrow> monitor \<Rightarrow> pydict \<Rightarrow> string list \<Rightarrow> error + string list" where
  "check_disk fmt self health_data alerts =
     (case map_of health_data ''disk_info'' of
        None \<Rightarrow> Inr alerts
      | Some disk_info \<Rightarrow>
          (case disk_info of
             PDict d \<Rightarrow> disk_loop fmt self d alerts
           | _ \<Rightarrow> Inr alerts))"

text \<open>
  \<^verbatim>\<open>check_alerts(self, health_data)\<close>: the alert list starts empty and goes through the
  CPU, memory and disk checks in this order; an exception in one of them leaves the
  function.
\<close>

definition check_alerts ::
  "(pyval \<Rightarrow> string) \<Rightarrow> monitor \<Rightarrow> pydict \<Rightarrow> error + string list" where
  "check_alerts fmt self health_data =
     andthen (check_cpu fmt self health_data []) (\<lambda>alerts1.
     andthen (check_memory fmt self health_data alerts1) (\<lambda>alerts2.
       check_disk fmt self health_data alerts2))"

section \<open>The operating-system metrics provider\<close>

text \<open>
  The program reads the host through \<^verbatim>\<open>psutil\<close>, which is not part of the repository.
  One collection sees one outcome per call: the value \<^verbatim>\<open>psutil\<close> returns, typed as
  \<^verbatim>\<open>psutil\<close> documents it, or the exception it raises, with its class and \<^verbatim>\<open>str(e)\<close>.
  \<^verbatim>\<open>OtherException\<close> stands for every further subclass of \<^verbatim>\<open>Exception\<close>.
\<close>

datatype exc_class =
  PermissionError | NoSuchProcess | AccessDenied | ZeroDivisionError | OtherException

datatype raised = Raised exc_class string

record uname_result =
  sysname :: string
  nodename :: string
  release :: string
  version :: string
  machine :: string

record svmem =
  vm_total :: int
  vm_available :: int
  vm_used :: int
  vm_percent :: rat

record sswap =
  sw_total :: int
  sw_used :: int
  sw_percent :: rat

record sdiskpart =
  device :: string
  mountpoint :: string
  fstype :: string

record sdiskusage =
  du_total :: int
  du_used :: int
  du_free :: int

record snetio =
  bytes_sent :: int
  bytes_recv :: int
  packets_sent :: int
  packets_recv :: int
  errin :: int
  errout :: int

text \<open>
  \<^verbatim>\<open>proc.info\<close> for the attributes \<^verbatim>\<open>['pid', 'name', 'cpu_percent', 'memory_percent']\<close>;
  \<^verbatim>\<open>psutil\<close> puts \<^verbatim>\<open>None\<close> where it could not read an attribute.
\<close>

record proc_info =
  info_pid :: int
  info_name :: "string option"
  info_cpu_percent :: "rat option"
  info_memory_percent :: "rat option"

record psutil =
  boot_time :: "raised + rat"
  uname :: "raised + uname_result"
  time_now :: rat
  cpu_percent :: "raised + rat"
  cpu_count :: "raised + int option"
  cpu_count_physical :: "raised + int option"
  cpu_freq :: "raised + rat option"
  getloadavg :: "(raised + rat \<times> rat \<times> rat) option"
  virtual_memory :: "raised + svmem"
  swap_memory :: "raised + sswap"
  disk_partitions :: "raised + sdiskpart list"
  disk_usage :: "string \<Rightarrow> raised + sdiskusage"
  net_io_counters :: "raised + (string \<times> snetio) list"
  process_iter :: "raised + (raised + proc_info) list"
  now_string :: string

text \<open>
  \<^verbatim>\<open>getloadavg\<close> is \<open>None\<close> when \<^verbatim>\<open>psutil\<close> has no such attribute; \<^verbatim>\<open>cpu_freq\<close> carries
  the \<^verbatim>\<open>current\<close> frequency, or \<open>None\<close> when \<^verbatim>\<open>psutil.cpu_freq()\<close> returns \<^verbatim>\<open>None\<close>;
  \<^verbatim>\<open>process_iter\<close> lists, per process, what reading \<^verbatim>\<open>proc.info\<close> gives;
  \<^verbatim>\<open>time_now\<close> is \<^verbatim>\<open>time.time()\<close> and \<^verbatim>\<open>now_string\<close> the formatted
  \<^verbatim>\<open>datetime.datetime.now()\<close>.

  The Python runtime functions whose results are floating-point roundings or formatted
  text are parameters: f-string formatting, \<^verbatim>\<open>round(x, 2)\<close>, and
  \<^verbatim>\<open>datetime.fromtimestamp(t).strftime('%Y-%m-%d %H:%M:%S')\<close>. Divisions are exact,
  on rationals.
\<close>

record runtime =
  format :: "pyval \<Rightarrow> string"
  round2 :: "rat \<Rightarrow> rat"
  strftime :: "rat \<Rightarrow> string"

section \<open>Metric collection\<close>

text \<open>The handler \<^verbatim>\<open>except Exception as e: return {'error': f'Failed to get ... info: {str(e)}'}\<close>.\<close>

fun failed :: "string \<Rightarrow> raised \<Rightarrow> pyval" where
  "failed what (Raised c msg) =
     PDict [(''error'', PStr (''Failed to get '' @ what @ '' info: '' @ msg))]"

text \<open>A \<^verbatim>\<open>try\<close> body that returns a dict, under that handler.\<close>

definition guarded :: "string \<Rightarrow> raised + pyval \<Rightarrow> pyval" where
  "guarded what body = (case body of Inl e \<Rightarrow> failed what e | Inr v \<Rightarrow> v)"


definition opt_float :: "rat option \<Rightarrow> pyval" where
  "opt_float x = (case x of None \<Rightarrow> PNone | Some r \<Rightarrow> PFloat r)"

definition opt_str :: "string option \<Rightarrow> pyval" where
  "opt_str x = (case x of None \<Rightarrow> PNone | Some s \<Rightarrow> PStr s)"

definition gib :: "runtime \<Rightarrow> int \<Rightarrow> pyval" where
  "gib rt n = PFloat (round2 rt (of_int n / 1024 ^ 3))"






text \<open>
  The dict stored for one partition. \<^verbatim>\<open>usage.used / usage.total\<close> raises
  \<^verbatim>\<open>ZeroDivisionError\<close> when the total is 0.
\<close>

definition disk_entry :: "runtime \<Rightarrow> sdiskpart \<Rightarrow> sdiskusage \<Rightarrow> raised + pyval" where
  "disk_entry rt part usage =
     (if du_total usage = 0 then Inl (Raised ZeroDivisionError ''division by zero'')
      else Inr (PDict
        [(''device'', PStr (device part)),
         (''filesystem'', PStr (fstype part)),
         (''total_gb'', gib rt (du_total usage)),
         (''used_gb'', gib rt (du_used usage)),
         (''free_gb'', gib rt (du_free usage)),
         (''percent'',
            PFloat (round2 rt
              (of_int (du_used usage) / of_int (du_total usage) * 100)))]))"

text \<open>
  The loop over the partitions. \<^verbatim>\<open>except PermissionError: continue\<close> passes over a
  partition; every other exception leaves the loop for the outer handler.
  \<^verbatim>\<open>disk_info[mountpoint] = ...\<close> replaces the entry of a mount point already stored and
  appends a new one otherwise.
\<close>

fun disk_partitions_loop ::
  "runtime \<Rightarrow> psutil \<Rightarrow> sdiskpart list \<Rightarrow> pydict \<Rightarrow> raised + pydict" where
  "disk_partitions_loop rt os [] disk_info = Inr disk_info"
| "disk_partitions_loop rt os (part # partitions) disk_info =
     (case andthen (disk_usage os (mountpoint part)) (disk_entry rt part) of
        Inr entry \<Rightarrow>
          disk_partitions_loop rt os partitions
            (AList.update (mountpoint part) entry disk_info)
      | Inl (Raised PermissionError msg) \<Rightarrow>
          disk_partitions_loop rt os partitions disk_info
      | Inl e \<Rightarrow> Inl e)"

definition get_disk_info :: "runtime \<Rightarrow> psutil \<Rightarrow> pyval" where
  "get_disk_info rt os =
     guarded ''disk''
       (andthen (disk_partitions os) (\<lambda>partitions.
        andthen (disk_partitions_loop rt os partitions []) (\<lambda>disk_info.
          Inr (PDict disk_info))))"



text \<open>
  The loop over \<^verbatim>\<open>psutil.process_iter(...)\<close>: a process whose \<^verbatim>\<open>info\<close> raises
  \<^verbatim>\<open>NoSuchProcess\<close> or \<^verbatim>\<open>AccessDenied\<close> is passed over, every other exception leaves
  the loop for the outer handler.
\<close>

fun process_loop :: "(raised + proc_info) list \<Rightarrow> proc_info list \<Rightarrow> raised + proc_info list"
  where
  "process_loop [] processes = Inr processes"
| "process_loop (proc # procs) processes =
     (case proc of
        Inr info \<Rightarrow> process_loop procs (processes @ [info])
      | Inl (Raised NoSuchProcess msg) \<Rightarrow> process_loop procs processes
      | Inl (Raised AccessDenied msg) \<Rightarrow> process_loop procs processes
      | Inl e \<Rightarrow> Inl e)"

text \<open>\<^verbatim>\<open>x or 0\<close> for a float or \<^verbatim>\<open>None\<close>: \<^verbatim>\<open>None\<close> and 0.0 are falsy.\<close>

definition or_zero :: "rat option \<Rightarrow> rat" where
  "or_zero x = (case x of None \<Rightarrow> 0 | Some v \<Rightarrow> if v = 0 then 0 else v)"

text \<open>
  \<^verbatim>\<open>sorted(xs, key=key, reverse=True)\<close>: Python's sort is stable, and with
  \<^verbatim>\<open>reverse=True\<close> elements with equal keys still keep their original order; this is
  the stable ascending sort on the negated key.
\<close>

definition sorted_reverse :: "('a \<Rightarrow> rat) \<Rightarrow> 'a list \<Rightarrow> 'a list" where
  "sorted_reverse key xs = sort_key (\<lambda>x. - key x) xs"

text \<open>
  The slice \<^verbatim>\<open>xs[:n]\<close> for an int \<open>n\<close>: the first \<open>n\<close> elements, and for a negative
  \<open>n\<close> all but the last \<open>-n\<close>.
\<close>

definition slice_to :: "int \<Rightarrow> 'a list \<Rightarrow> 'a list" where
  "slice_to n xs =
     (if 0 \<le> n then take (nat n) xs else take (nat (int (length xs) + n)) xs)"

definition info_dict :: "proc_info \<Rightarrow> pyval" where
  "info_dict info =
     PDict
       [(''pid'', PInt (info_pid info)),
        (''name'', opt_str (info_name info)),
        (''cpu_percent'', opt_float (info_cpu_percent info)),
        (''memory_percent'', opt_float (info_memory_percent info))]"

definition get_process_info :: "runtime \<Rightarrow> psutil \<Rightarrow> int \<Rightarrow> pyval" where
  "get_process_info rt os top_n =
     guarded ''process''
       (andthen (process_iter os) (\<lambda>procs.
        andthen (process_loop procs []) (\<lambda>processes.
          let top_cpu =
                slice_to top_n
                  (sorted_reverse (\<lambda>x. or_zero (info_cpu_percent x)) processes);
              top_memory =
                slice_to top_n
                  (sorted_reverse (\<lambda>x. or_zero (info_memory_percent x)) processes)
          in Inr (PDict
            [(''total_processes'', PInt (int (length processes))),
             (''top_cpu_processes'', PList (map info_dict top_cpu)),
             (''top_memory_processes'', PList (map info_dict top_memory))]))))"


section \<open>Reading a snapshot\<close>

text \<open>
  The notions the properties below are stated with. A metric exceeds a threshold when it
  is a number strictly greater than it.
\<close>

definition exceeds :: "pyval \<Rightarrow> rat \<Rightarrow> bool" where
  "exceeds v t = (case number_of v of Some x \<Rightarrow> t < x | None \<Rightarrow> False)"

text \<open>
  The value a category holds under a key: present when the category's field is a dict
  with that key; an error marker \<^verbatim>\<open>{'error': ...}\<close> holds none.
\<close>

definition metric :: "pydict \<Rightarrow> string \<Rightarrow> string \<Rightarrow> pyval option" where
  "metric health_data category key =
     (case map_of health_data category of
        Some (PDict d) \<Rightarrow> map_of d key
      | _ \<Rightarrow> None)"

text \<open>
  The mount points of a disk mapping that carry a \<^verbatim>\<open>'percent'\<close>, with that value, in
  the mapping's iteration order.
\<close>

fun mount_percents :: "pydict \<Rightarrow> (string \<times> pyval) list" where
  "mount_percents [] = []"
| "mount_percents ((mount_point, disk_data) # rest) =
     (case disk_data of
        PDict d \<Rightarrow>
          (case map_of d ''percent'' of
             Some v \<Rightarrow> (mount_point, v) # mount_percents rest
           | None \<Rightarrow> mount_percents rest)
      | _ \<Rightarrow> mount_percents rest)"

definition disk_percents :: "pydict \<Rightarrow> (string \<times> pyval) list" where
  "disk_percents health_data =
     (case map_of health_data ''disk_info'' of
        Some (PDict d) \<Rightarrow> mount_percents d
      | _ \<Rightarrow> [])"

text \<open>
  A snapshot is typed as the data model has it: the CPU and memory fields, when present,
  are dicts (data or error marker), and every percent is a number.
\<close>

definition category_typed :: "pydict \<Rightarrow> string \<Rightarrow> string \<Rightarrow> bool" where
  "category_typed health_data category key =
     (case map_of health_data category of
        None \<Rightarrow> True
      | Some (PDict d) \<Rightarrow>
          (case map_of d key of None \<Rightarrow> True | Some v \<Rightarrow> is_number v)
      | Some _ \<Rightarrow> False)"

definition snapshot_typed :: "pydict \<Rightarrow> bool" where
  "snapshot_typed health_data \<longleftrightarrow>
     category_typed health_data ''cpu_info'' ''cpu_percent''
     \<and> category_typed health_data ''memory_info'' ''memory_percent''
     \<and> list_all (\<lambda>(mount_point, v). is_number v) (disk_percents health_data)"

text \<open>The alerts one category contributes, and the alerts of the disks.\<close>

definition alerts_of :: "(pyval \<Rightarrow> rat \<Rightarrow> string) \<Rightarrow> pyval option \<Rightarrow> rat \<Rightarrow> string list" where
  "alerts_of message value t =
     (case value of
        Some v \<Rightarrow> if exceeds v t then [message v t] else []
      | None \<Rightarrow> [])"

definition disk_alerts ::
  "(pyval \<Rightarrow> string) \<Rightarrow> (string \<times> pyval) list \<Rightarrow> rat \<Rightarrow> string list" where
  "disk_alerts fmt percents t =
     map (\<lambda>(mount_point, v). disk_message fmt mount_point v t)
       (filter (\<lambda>(mount_point, v). exceeds v t) percents)"

text \<open>
  The threshold the monitor holds for a key, if any, and the alerts of a category and of the
  disks under it: none without a threshold.
\<close>

definition threshold_of :: "monitor \<Rightarrow> string \<Rightarrow> rat option" where
  "threshold_of self k = map_of (alert_thresholds self) k"

definition category_alerts ::
  "(pyval \<Rightarrow> rat \<Rightarrow> string) \<Rightarrow> pyval option \<Rightarrow> rat option \<Rightarrow> string list" where
  "category_alerts message value t =
     (case t of Some t' \<Rightarrow> alerts_of message value t' | None \<Rightarrow> [])"

definition mount_alerts ::
  "(pyval \<Rightarrow> string) \<Rightarrow> (string \<times> pyval) list \<Rightarrow> rat option \<Rightarrow> string list" where
  "mount_alerts fmt percents t =
     (case t of Some t' \<Rightarrow> disk_alerts fmt percents t' | None \<Rightarrow> [])"

text \<open>
  The threshold \<^verbatim>\<open>check_alerts\<close> looks up and does not find: the first of
  \<^verbatim>\<open>cpu_percent\<close>, \<^verbatim>\<open>memory_percent\<close> and \<^verbatim>\<open>disk_percent\<close> that the monitor lacks
  while its category holds a value (for the disks, while some mount point carries a
  percent).
\<close>

definition missing_threshold :: "monitor \<Rightarrow> pydict \<Rightarrow> string option" where
  "missing_threshold self health_data =
     (if metric health_data ''cpu_info'' ''cpu_percent'' \<noteq> None
         \<and> threshold_of self ''cpu_percent'' = None
      then Some ''cpu_percent''
      else if metric health_data ''memory_info'' ''memory_percent'' \<noteq> None
         \<and> threshold_of self ''memory_percent'' = None
      then Some ''memory_percent''
      else if disk_percents health_data \<noteq> [] \<and> threshold_of self ''disk_percent'' = None
      then Some ''disk_percent''
      else None)"


section \<open>Alert evaluation on a store\<close>

text \<open>
  Python passes \<^verbatim>\<open>health_data\<close> and every dict or list inside it by reference, and
  \<^verbatim>\<open>alerts.append\<close> writes into an object. To state what \<^verbatim>\<open>check_alerts\<close> leaves
  untouched, the same function is modelled once more on an explicit store: an object is
  a list, a tuple or a dict, a value is immediate or a reference to an object, the store
  is the list of the objects allocated so far, and an address is an index into it.
  Nothing is assumed of what the store holds: the health data and the threshold mapping
  are any two values, and a threshold is any value.
\<close>

type_synonym addr = nat

datatype hval = HNone | HBool bool | HInt int | HFloat rat | HStr string | HRef addr

datatype hobj = HList "hval list" | HTuple "hval list" | HDict "(string \<times> hval) list"

type_synonym heap = "hobj list"

text \<open>
  A computation on the store raises \<^verbatim>\<open>KeyError\<close> or \<^verbatim>\<open>TypeError\<close>, hits the recursion
  limit of the interpreter (comparing two cyclic lists), or is stuck on a store no Python
  run can reach: a dangling reference, an \<^verbatim>\<open>append\<close> to an object that is no list.
\<close>

datatype fault = Raise error | RecursionError | Stuck

text \<open>
  Two operations of the interpreter are parameters; both read the store and write
  nothing. \<open>format_h\<close> is the formatting of a value inside an f-string. \<open>sequence_gt\<close>
  is \<^verbatim>\<open>xs > ys\<close> for the items of two lists or of two tuples, which Python decides at the
  first pair of items that are not equal.
\<close>

record runtime_h =
  format_h :: "heap \<Rightarrow> hval \<Rightarrow> string"
  sequence_gt :: "heap \<Rightarrow> hval list \<Rightarrow> hval list \<Rightarrow> fault + bool"

text \<open>Allocation takes the next address; \<^verbatim>\<open>xs.append(x)\<close> rewrites the object of \<open>xs\<close>.\<close>

definition alloc :: "heap \<Rightarrow> hobj \<Rightarrow> addr \<times> heap" where
  "alloc h obj = (length h, h @ [obj])"

definition deref :: "heap \<Rightarrow> addr \<Rightarrow> fault + hobj" where
  "deref h a = (if a < length h then Inr (h ! a) else Inl Stuck)"

definition h_append :: "heap \<Rightarrow> addr \<Rightarrow> hval \<Rightarrow> (fault + unit) \<times> heap" where
  "h_append h a x =
     (case deref h a of
        Inr (HList xs) \<Rightarrow> (Inr (), h[a := HList (xs @ [x])])
      | _ \<Rightarrow> (Inl Stuck, h))"

text \<open>
  \<^verbatim>\<open>k in v\<close>, \<^verbatim>\<open>v[k]\<close> and \<^verbatim>\<open>isinstance(v, dict)\<close> (with the items of the dict) on the
  store; they read, and write nothing.
\<close>

definition h_in :: "heap \<Rightarrow> string \<Rightarrow> hval \<Rightarrow> fault + bool" where
  "h_in h k v =
     (case v of
        HRef a \<Rightarrow>
          andthen (deref h a) (\<lambda>obj.
            case obj of
              HDict d \<Rightarrow> Inr (k \<in> set (map fst d))
            | HList xs \<Rightarrow> Inr (HStr k \<in> set xs)
            | HTuple xs \<Rightarrow> Inr (HStr k \<in> set xs))
      | HStr s \<Rightarrow> Inr (sublist k s)
      | _ \<Rightarrow> Inl (Raise TypeError))"

definition h_getitem :: "heap \<Rightarrow> hval \<Rightarrow> string \<Rightarrow> fault + hval" where
  "h_getitem h v k =
     (case v of
        HRef a \<Rightarrow>
          andthen (deref h a) (\<lambda>obj.
            case obj of
              HDict d \<Rightarrow>
                (case map_of d k of None \<Rightarrow> Inl (Raise (KeyError k)) | Some x \<Rightarrow> Inr x)
            | _ \<Rightarrow> Inl (Raise TypeError))
      | _ \<Rightarrow> Inl (Raise TypeError))"

definition h_dict_items :: "heap \<Rightarrow> hval \<Rightarrow> fault + (string \<times> hval) list option" where
  "h_dict_items h v =
     (case v of
        HRef a \<Rightarrow>
          andthen (deref h a) (\<lambda>obj.
            case obj of HDict d \<Rightarrow> Inr (Some d) | _ \<Rightarrow> Inr None)
      | _ \<Rightarrow> Inr None)"

text \<open>
  \<^verbatim>\<open>v > t\<close> for any two values. Two numbers (an int, a float or a bool each) compare
  by their numeric value, two strings lexicographically by their characters, two lists
  or two tuples by their items; every other pair raises \<^verbatim>\<open>TypeError\<close>.
\<close>

definition h_number :: "hval \<Rightarrow> rat option" where
  "h_number v =
     (case v of
        HInt i \<Rightarrow> Some (of_int i)
      | HFloat x \<Rightarrow> Some x
      | HBool b \<Rightarrow> Some (if b then 1 else 0)
      | _ \<Rightarrow> None)"

definition h_gt :: "runtime_h \<Rightarrow> heap \<Rightarrow> hval \<Rightarrow> hval \<Rightarrow> fault + bool" where
  "h_gt py h v t =
     (case h_number v of
        Some x \<Rightarrow>
          (case h_number t of Some y \<Rightarrow> Inr (y < x) | None \<Rightarrow> Inl (Raise TypeError))
      | None \<Rightarrow>
          (case v of
             HStr s \<Rightarrow> (case t of HStr s' \<Rightarrow> Inr (s' < s) | _ \<Rightarrow> Inl (Raise TypeError))
           | HRef a \<Rightarrow>
               (case t of
                  HRef b \<Rightarrow>
                    andthen (deref h a) (\<lambda>x.
                    andthen (deref h b) (\<lambda>y.
                      case x of
                        HList xs \<Rightarrow>
                          (case y of
                             HList ys \<Rightarrow> sequence_gt py h xs ys
                           | _ \<Rightarrow> Inl (Raise TypeError))
                      | HTuple xs \<Rightarrow>
                          (case y of
                             HTuple ys \<Rightarrow> sequence_gt py h xs ys
                           | _ \<Rightarrow> Inl (Raise TypeError))
                      | HDict d \<Rightarrow> Inl (Raise TypeError)))
                | _ \<Rightarrow> Inl (Raise TypeError))
           | _ \<Rightarrow> Inl (Raise TypeError)))"

text \<open>The three f-strings, from the formatted value and the formatted threshold.\<close>

definition cpu_message_h :: "string \<Rightarrow> string \<Rightarrow> string" where
  "cpu_message_h v t = ''HIGH CPU USAGE: '' @ v @ ''% (threshold: '' @ t @ ''%)''"

definition memory_message_h :: "string \<Rightarrow> string \<Rightarrow> string" where
  "memory_message_h v t = ''HIGH MEMORY USAGE: '' @ v @ ''% (threshold: '' @ t @ ''%)''"

definition disk_message_h :: "string \<Rightarrow> string \<Rightarrow> string \<Rightarrow> string" where
  "disk_message_h mount_point v t =
     ''HIGH DISK USAGE: '' @ mount_point @ '' at '' @ v @ ''% (threshold: '' @ t @ ''%)''"

text \<open>
  The checks of \<^verbatim>\<open>check_alerts\<close>, statement by statement as above; each returns the store
  it leaves, also when it raises. \<open>thresholds\<close> is the value of
  \<^verbatim>\<open>self.alert_thresholds\<close>.
\<close>

definition check_value_h ::
  "runtime_h \<Rightarrow> hval \<Rightarrow> hval \<Rightarrow> string \<Rightarrow> string \<Rightarrow> (string \<Rightarrow> string \<Rightarrow> string) \<Rightarrow> addr
     \<Rightarrow> heap \<Rightarrow> (fault + unit) \<times> heap" where
  "check_value_h py thresholds container key tkey message alerts h =
     (case andthen (h_getitem h container key) (\<lambda>v.
           andthen (h_getitem h thresholds tkey) (\<lambda>t.
           andthen (h_gt py h v t) (\<lambda>g. Inr (v, t, g)))) of
        Inl e \<Rightarrow> (Inl e, h)
      | Inr (v, t, g) \<Rightarrow>
          if g
          then h_append h alerts (HStr (message (format_h py h v) (format_h py h t)))
          else (Inr (), h))"

definition category_h :: "heap \<Rightarrow> hval \<Rightarrow> string \<Rightarrow> fault + hval option" where
  "category_h h health_data category =
     andthen (h_in h category health_data) (\<lambda>present.
       if present
       then andthen (h_getitem h health_data category) (\<lambda>v. Inr (Some v))
       else Inr None)"

definition check_metric_h ::
  "runtime_h \<Rightarrow> hval \<Rightarrow> hval \<Rightarrow> string \<Rightarrow> string \<Rightarrow> (string \<Rightarrow> string \<Rightarrow> string) \<Rightarrow> addr
     \<Rightarrow> heap \<Rightarrow> (fault + unit) \<times> heap" where
  "check_metric_h py thresholds health_data category key message alerts h =
     (case andthen (category_h h health_data category) (\<lambda>field.
             case field of
               None \<Rightarrow> Inr None
             | Some info \<Rightarrow>
                 andthen (h_in h key info) (\<lambda>present.
                   Inr (if present then Some info else None))) of
        Inl e \<Rightarrow> (Inl e, h)
      | Inr None \<Rightarrow> (Inr (), h)
      | Inr (Some info) \<Rightarrow> check_value_h py thresholds info key key message alerts h)"

definition check_mount_h ::
  "runtime_h \<Rightarrow> hval \<Rightarrow> string \<times> hval \<Rightarrow> addr \<Rightarrow> heap \<Rightarrow> (fault + unit) \<times> heap"
  where
  "check_mount_h py thresholds item alerts h =
     (case item of (mount_point, disk_data) \<Rightarrow>
        (case h_dict_items h disk_data of
           Inl e \<Rightarrow> (Inl e, h)
         | Inr None \<Rightarrow> (Inr (), h)
         | Inr (Some d) \<Rightarrow>
             if ''percent'' \<in> set (map fst d)
             then check_value_h py thresholds disk_data ''percent'' ''disk_percent''
                    (disk_message_h mount_point) alerts h
             else (Inr (), h)))"

fun disk_loop_h ::
  "runtime_h \<Rightarrow> hval \<Rightarrow> (string \<times> hval) list \<Rightarrow> addr \<Rightarrow> heap
     \<Rightarrow> (fault + unit) \<times> heap" where
  "disk_loop_h py thresholds [] alerts h = (Inr (), h)"
| "disk_loop_h py thresholds (item # items) alerts h =
     (case check_mount_h py thresholds item alerts h of
        (Inl e, h') \<Rightarrow> (Inl e, h')
      | (Inr u, h') \<Rightarrow> disk_loop_h py thresholds items alerts h')"

definition check_disk_h ::
  "runtime_h \<Rightarrow> hval \<Rightarrow> hval \<Rightarrow> addr \<Rightarrow> heap \<Rightarrow> (fault + unit) \<times> heap" where
  "check_disk_h py thresholds health_data alerts h =
     (case andthen (category_h h health_data ''disk_info'') (\<lambda>field.
             case field of
               None \<Rightarrow> Inr None
             | Some disk_info \<Rightarrow> h_dict_items h disk_info) of
        Inl e \<Rightarrow> (Inl e, h)
      | Inr None \<Rightarrow> (Inr (), h)
      | Inr (Some items) \<Rightarrow> disk_loop_h py thresholds items alerts h)"

text \<open>
  \<^verbatim>\<open>alerts = []\<close> allocates the list; the function returns its address.
\<close>

definition check_alerts_h ::
  "runtime_h \<Rightarrow> hval \<Rightarrow> hval \<Rightarrow> heap \<Rightarrow> (fault + addr) \<times> heap" where
  "check_alerts_h py thresholds health_data h =
     (case alloc h (HList []) of (alerts, h0) \<Rightarrow>
        (case check_metric_h py thresholds health_data ''cpu_info'' ''cpu_percent''
                cpu_message_h alerts h0 of
           (Inl e, h1) \<Rightarrow> (Inl e, h1)
         | (Inr u, h1) \<Rightarrow>
             (case check_metric_h py thresholds health_data ''memory_info''
                     ''memory_percent'' memory_message_h alerts h1 of
                (Inl e, h2) \<Rightarrow> (Inl e, h2)
              | (Inr u, h2) \<Rightarrow>
                  (case check_disk_h py thresholds health_data alerts h2 of
                     (Inl e, h3) \<Rightarrow> (Inl e, h3)
                   | (Inr u, h3) \<Rightarrow> (Inr alerts, h3)))))"

text \<open>
  The documented scenario as a store: the threshold mapping at address 0, the health data
  at address 1, its categories and disks behind it. In the second store the monitor was
  constructed with \<^verbatim>\<open>{'cpu_percent': 50}\<close>, an int, and the memory category has data.
  \<open>example_runtime_h\<close> formats every value as \<^verbatim>\<open>#\<close>; these stores compare no lists.
\<close>

definition scenario_heap :: heap where
  "scenario_heap =
     [HDict [(''cpu_percent'', HFloat 80), (''memory_percent'', HFloat 85),
             (''disk_percent'', HFloat 90)],
      HDict [(''cpu_info'', HRef 2), (''memory_info'', HRef 3), (''disk_info'', HRef 4)],
      HDict [(''cpu_percent'', HFloat 92.3)],
      HDict [(''memory_percent'', HFloat 60.0)],
      HDict [(''/'', HRef 5), (''/data'', HRef 6)],
      HDict [(''percent'', HFloat 95.5)],
      HDict [(''percent'', HFloat 50.0)]]"

definition int_threshold_heap :: heap where
  "int_threshold_heap =
     [HDict [(''cpu_percent'', HInt 50)],
      HDict [(''cpu_info'', HRef 2), (''memory_info'', HRef 3)],
      HDict [(''cpu_percent'', HFloat 92.3)],
      HDict [(''memory_percent'', HFloat 60.0)]]"

definition example_runtime_h :: runtime_h where
  "example_runtime_h =
     \<lparr>format_h = (\<lambda>h v. ''#''), sequence_gt = (\<lambda>h xs ys. Inl (Raise TypeError))\<rparr>"

text \<open>
  A value on the store represents a Python value when the objects behind its references
  hold, item by item, what the Python value holds.
\<close>

inductive represents :: "heap \<Rightarrow> hval \<Rightarrow> pyval \<Rightarrow> bool" for h :: heap where
  none: "represents h HNone PNone"
| bool: "represents h (HBool b) (PBool b)"
| int: "represents h (HInt i) (PInt i)"
| float: "represents h (HFloat x) (PFloat x)"
| str: "represents h (HStr s) (PStr s)"
| list: "a < length h \<Longrightarrow> h ! a = HList vs \<Longrightarrow> list_all2 (represents h) vs pvs \<Longrightarrow>
     represents h (HRef a) (PList pvs)"
| tuple: "a < length h \<Longrightarrow> h ! a = HTuple vs \<Longrightarrow> list_all2 (represents h) vs pvs \<Longrightarrow>
     represents h (HRef a) (PTuple pvs)"
| dict: "a < length h \<Longrightarrow> h ! a = HDict d \<Longrightarrow> map fst d = map fst pd \<Longrightarrow>
     list_all2 (represents h) (map snd d) (map snd pd) \<Longrightarrow>
     represents h (HRef a) (PDict pd)"

text \<open>
  Between two stores, only the object at one address was written, and it stayed a list of
  strings if it was one.
\<close>

definition writes_only_to :: "addr \<Rightarrow> heap \<Rightarrow> heap \<Rightarrow> bool" where
  "writes_only_to a h h' \<longleftrightarrow>
     length h' = length h
     \<and> (\<forall>p<length h. p \<noteq> a \<longrightarrow> h' ! p = h ! p)
     \<and> ((\<exists>msgs. h ! a = HList (map HStr msgs)) \<longrightarrow> (\<exists>msgs. h' ! a = HList (map HStr msgs)))"

section \<open>Reading what was collected\<close>

text \<open>
  The error marker of a category: the dict \<^verbatim>\<open>{'error': '...'}\<close> with a text.
\<close>

definition is_error_marker :: "pyval \<Rightarrow> bool" where
  "is_error_marker v = (case v of PDict [(k, PStr msg)] \<Rightarrow> k = ''error'' | _ \<Rightarrow> False)"

text \<open>
  The usage step of a partition (\<^verbatim>\<open>psutil.disk_usage\<close> and the entry built from it)
  succeeds when the lookup returns a usage with a non-zero total; it is denied when the
  lookup raises \<^verbatim>\<open>PermissionError\<close>. An item of the result is the entry of a partition
  when some partition with that mount point yields exactly that entry.
\<close>

definition usage_ok :: "psutil \<Rightarrow> sdiskpart \<Rightarrow> bool" where
  "usage_ok os part =
     (case disk_usage os (mountpoint part) of
        Inr usage \<Rightarrow> du_total usage \<noteq> 0
      | Inl e \<Rightarrow> False)"

definition usage_denied :: "psutil \<Rightarrow> sdiskpart \<Rightarrow> bool" where
  "usage_denied os part =
     (case disk_usage os (mountpoint part) of
        Inl (Raised PermissionError msg) \<Rightarrow> True
      | _ \<Rightarrow> False)"

definition entry_of :: "runtime \<Rightarrow> psutil \<Rightarrow> sdiskpart list \<Rightarrow> string \<times> pyval \<Rightarrow> bool" where
  "entry_of rt os parts item =
     (\<exists>p\<in>set parts. mountpoint p = fst item
        \<and> andthen (disk_usage os (fst item)) (disk_entry rt p) = Inr (snd item))"

text \<open>
  The processes whose \<^verbatim>\<open>info\<close> was read, in enumeration order, and the reads the loop
  survives: a success, a vanished process or an inaccessible one.
\<close>

fun readable :: "(raised + proc_info) list \<Rightarrow> proc_info list" where
  "readable [] = []"
| "readable (Inr info # procs) = info # readable procs"
| "readable (Inl e # procs) = readable procs"

definition skippable :: "raised + proc_info \<Rightarrow> bool" where
  "skippable proc =
     (case proc of
        Inr info \<Rightarrow> True
      | Inl (Raised NoSuchProcess msg) \<Rightarrow> True
      | Inl (Raised AccessDenied msg) \<Rightarrow> True
      | Inl e \<Rightarrow> False)"

text \<open>
  The two sort keys of \<^verbatim>\<open>get_process_info\<close>. A ranking of the processes by a key is
  a rearrangement of them, descending by the key, in which processes with equal keys keep
  their enumeration order; it breaks ties by PID when, among equal keys, the smaller PID
  comes first.
\<close>

definition cpu_key :: "proc_info \<Rightarrow> rat" where
  "cpu_key x = or_zero (info_cpu_percent x)"

definition memory_key :: "proc_info \<Rightarrow> rat" where
  "memory_key x = or_zero (info_memory_percent x)"











section \<open>Example hosts\<close>

text \<open>
  A runtime and a host on which the operations are evaluated: the host has one partition
  that denies access, one vanished and one inaccessible process, and two processes with the
  same CPU percent. Two variations: a partition whose lookup fails with an I/O error, and
  a monitor constructed with one threshold only.
\<close>

definition example_runtime :: runtime where
  "example_runtime =
     \<lparr>format = (\<lambda>v. ''#''), round2 = (\<lambda>x. x), strftime = (\<lambda>t. ''2024-05-01 08:00:00'')\<rparr>"

definition example_processes :: "(raised + proc_info) list" where
  "example_processes =
     [Inr \<lparr>info_pid = 1, info_name = Some ''init'', info_cpu_percent = Some 0,
            info_memory_percent = Some 0.5\<rparr>,
      Inl (Raised NoSuchProcess ''process no longer exists (pid=7)''),
      Inr \<lparr>info_pid = 9, info_name = Some ''db'', info_cpu_percent = Some 30,
            info_memory_percent = Some 20\<rparr>,
      Inl (Raised AccessDenied ''(pid=12)''),
      Inr \<lparr>info_pid = 15, info_name = None, info_cpu_percent = None,
            info_memory_percent = None\<rparr>,
      Inr \<lparr>info_pid = 21, info_name = Some ''web'', info_cpu_percent = Some 30,
            info_memory_percent = Some 4\<rparr>]"

definition example_host :: psutil where
  "example_host =
     \<lparr>boot_time = Inr 1000,
      uname =
        Inr \<lparr>sysname = ''Linux'', nodename = ''web1'', release = ''6.1.0'',
             version = ''#1 SMP'', machine = ''x86_64''\<rparr>,
      time_now = 8200,
      cpu_percent = Inr 12.5,
      cpu_count = Inr (Some 8),
      cpu_count_physical = Inr (Some 4),
      cpu_freq = Inr (Some 2400),
      getloadavg = Some (Inr (0.5, 0.25, 0.125)),
      virtual_memory =
        Inr \<lparr>vm_total = 8589934592, vm_available = 4294967296, vm_used = 4294967296,
             vm_percent = 50\<rparr>,
      swap_memory = Inr \<lparr>sw_total = 0, sw_used = 0, sw_percent = 0\<rparr>,
      disk_partitions =
        Inr [\<lparr>device = ''/dev/sda1'', mountpoint = ''/'', fstype = ''ext4''\<rparr>,
             \<lparr>device = ''/dev/sdb1'', mountpoint = ''/backup'', fstype = ''ext4''\<rparr>,
             \<lparr>device = ''/dev/sda2'', mountpoint = ''/home'', fstype = ''ext4''\<rparr>],
      disk_usage =
        (\<lambda>m. if m = ''/backup'' then Inl (Raised PermissionError ''[Errno 13] Permission denied'')
             else Inr \<lparr>du_total = 4294967296, du_used = 1073741824, du_free = 3221225472\<rparr>),
      net_io_counters =
        Inr [(''lo'', \<lparr>bytes_sent = 10, bytes_recv = 10, packets_sent = 1, packets_recv = 1,
                        errin = 0, errout = 0\<rparr>)],
      process_iter = Inr example_processes,
      now_string = ''2024-05-01 10:00:00''\<rparr>"

definition io_error_host :: psutil where
  "io_error_host =
     example_host
       \<lparr>disk_usage :=
          (\<lambda>m. if m = ''/backup'' then Inl (Raised OtherException ''[Errno 5] Input/output error'')
               else Inr \<lparr>du_total = 4294967296, du_used = 1073741824, du_free = 3221225472\<rparr>)\<rparr>"


text \<open>
  Snapshots on which the alerts are evaluated: a CPU value equal to the default threshold
  beside a memory error marker and two disks; a CPU value under and a memory value over
  the usual thresholds; the three categories in another order, with three disks, for a
  monitor constructed with a CPU and a disk threshold.
\<close>

definition boundary_snapshot :: pydict where
  "boundary_snapshot =
     [(''cpu_info'', PDict [(''cpu_percent'', PFloat 80)]),
      (''memory_info'', PDict [(''error'', PStr ''Failed to get memory info: no'')]),
      (''disk_info'', PDict [(''/'', PDict [(''percent'', PFloat 95.5)]),
                            (''/data'', PDict [(''percent'', PFloat 90)])])]"

definition cpu_under_memory_only :: pydict where
  "cpu_under_memory_only =
     [(''cpu_info'', PDict [(''cpu_percent'', PFloat 10)]),
      (''memory_info'', PDict [(''memory_percent'', PFloat 99)])]"

definition cpu_disk_monitor :: monitor where
  "cpu_disk_monitor = init (Some [(''cpu_percent'', 50), (''disk_percent'', 90)])"

definition ordered_snapshot :: pydict where
  "ordered_snapshot =
     [(''disk_info'', PDict [(''/srv'', PDict [(''percent'', PFloat 99)]),
                            (''/boot'', PDict [(''percent'', PFloat 12.5)]),
                            (''/'', PDict [(''percent'', PInt 95)])]),
      (''memory_info'', PDict [(''error'', PStr ''Failed to get memory info: no'')]),
      (''cpu_info'', PDict [(''cpu_percent'', PFloat 92.3)])]"

section \<open>Construction of the monitor\<close>

text \<open>
  C9. A monitor constructed with an empty threshold mapping holds exactly the default
  thresholds cpu_percent = 80, memory_percent = 85, disk_percent = 90, and is the same
  monitor as the one constructed with no mapping at all.
\<close>

theorem init_empty_is_default:
  "alert_thresholds (init (Some [])) =
     [(''cpu_percent'', 80), (''memory_percent'', 85), (''disk_percent'', 90)]
   \<and> init (Some []) = init None"
  by (simp add: init_def default_thresholds_def)

section \<open>The documented scenario\<close>

text \<open>
  C8. With thresholds cpu = 80, memory = 85, disk = 90 and a snapshot with cpu percent
  92.3, memory percent 60.0 and the disks "/" at 95.5 and "/data" at 50.0,
  \<^verbatim>\<open>check_alerts\<close> returns exactly two alerts: the CPU alert, then the disk alert for
  "/"; there is no memory alert.
\<close>

theorem check_alerts_scenario:
  "check_alerts fmt
     \<lparr>alert_thresholds =
        [(''cpu_percent'', 80), (''memory_percent'', 85), (''disk_percent'', 90)]\<rparr>
     [(''cpu_info'', PDict [(''cpu_percent'', PFloat 92.3)]),
      (''memory_info'', PDict [(''memory_percent'', PFloat 60.0)]),
      (''disk_info'', PDict [(''/'', PDict [(''percent'', PFloat 95.5)]),
                            (''/data'', PDict [(''percent'', PFloat 50.0)])])]
   = Inr [''HIGH CPU USAGE: '' @ fmt (PFloat 92.3) @ ''% (threshold: ''
            @ fmt (PFloat 80) @ ''%)'',
          ''HIGH DISK USAGE: / at '' @ fmt (PFloat 95.5) @ ''% (threshold: ''
            @ fmt (PFloat 90) @ ''%)'']"
  by (simp add: check_alerts_def check_cpu_def check_memory_def check_disk_def
      check_mount_def check_value_def py_in_def py_getitem_def py_gt_def number_of_def
      threshold_def
      cpu_message_def memory_message_def disk_message_def)

section \<open>What alert evaluation returns\<close>

lemma map_of_in_keys: "(k \<in> fst ` set d) = (map_of d k \<noteq> None)"
  by (simp add: map_of_eq_None_iff)

lemma check_value_result:
  assumes "map_of d key = Some v" and "number_of v = Some x"
    and "map_of (alert_thresholds self) tkey = Some t"
  shows "check_value self (PDict d) key tkey message alerts =
           Inr (alerts @ (if x > t then [message v t] else []))"
  using assms by (simp add: check_value_def py_getitem_def threshold_def py_gt_def)

lemma check_cpu_result:
  assumes "category_typed health_data ''cpu_info'' ''cpu_percent''"
    and "map_of (alert_thresholds self) ''cpu_percent'' = Some t"
  shows "check_cpu fmt self health_data alerts =
           Inr (alerts @ alerts_of (cpu_message fmt)
                  (metric health_data ''cpu_info'' ''cpu_percent'') t)"
proof (cases "map_of health_data ''cpu_info''")
  case None
  then show ?thesis by (simp add: check_cpu_def metric_def alerts_of_def)
next
  case (Some c)
  with assms(1) obtain d where c: "c = PDict d"
    by (cases c) (simp_all add: category_typed_def)
  show ?thesis
  proof (cases "map_of d ''cpu_percent''")
    case None
    with Some c show ?thesis
      by (simp add: check_cpu_def metric_def alerts_of_def py_in_def map_of_in_keys)
  next
    case (Some v)
    with assms(1) \<open>map_of health_data ''cpu_info'' = Some c\<close> c
    obtain x where x: "number_of v = Some x"
      by (auto simp: category_typed_def is_number_def split: option.splits)
    from Some \<open>map_of health_data ''cpu_info'' = Some c\<close> c x assms(2) show ?thesis
      by (simp add: check_cpu_def metric_def alerts_of_def py_in_def map_of_in_keys
          check_value_result exceeds_def)
  qed
qed

lemma check_memory_result:
  assumes "category_typed health_data ''memory_info'' ''memory_percent''"
    and "map_of (alert_thresholds self) ''memory_percent'' = Some t"
  shows "check_memory fmt self health_data alerts =
           Inr (alerts @ alerts_of (memory_message fmt)
                  (metric health_data ''memory_info'' ''memory_percent'') t)"
proof (cases "map_of health_data ''memory_info''")
  case None
  then show ?thesis by (simp add: check_memory_def metric_def alerts_of_def)
next
  case (Some c)
  with assms(1) obtain d where c: "c = PDict d"
    by (cases c) (simp_all add: category_typed_def)
  show ?thesis
  proof (cases "map_of d ''memory_percent''")
    case None
    with Some c show ?thesis
      by (simp add: check_memory_def metric_def alerts_of_def py_in_def map_of_in_keys)
  next
    case (Some v)
    with assms(1) \<open>map_of health_data ''memory_info'' = Some c\<close> c
    obtain x where x: "number_of v = Some x"
      by (auto simp: category_typed_def is_number_def split: option.splits)
    from Some \<open>map_of health_data ''memory_info'' = Some c\<close> c x assms(2) show ?thesis
      by (simp add: check_memory_def metric_def alerts_of_def py_in_def map_of_in_keys
          check_value_result exceeds_def)
  qed
qed

lemma disk_loop_result:
  assumes "map_of (alert_thresholds self) ''disk_percent'' = Some t"
  shows "list_all (\<lambda>(m, v). is_number v) (mount_percents d) \<Longrightarrow>
         disk_loop fmt self d alerts =
           Inr (alerts @ disk_alerts fmt (mount_percents d) t)"
proof (induction d arbitrary: alerts)
  case Nil
  then show ?case by (simp add: disk_alerts_def)
next
  case (Cons item d)
  obtain m dd where item: "item = (m, dd)" by (cases item)
  show ?case
  proof (cases "\<exists>e v. dd = PDict e \<and> map_of e ''percent'' = Some v")
    case True
    then obtain e v where e: "dd = PDict e" "map_of e ''percent'' = Some v" by blast
    with Cons.prems item obtain x where x: "number_of v = Some x"
      by (auto simp: is_number_def split: option.splits)
    from e x assms have step: "check_mount fmt self item alerts =
        Inr (alerts @ (if x > t then [disk_message fmt m v t] else []))"
      by (simp add: check_mount_def item map_of_in_keys check_value_result)
    from Cons.prems item e have "list_all (\<lambda>(m, v). is_number v) (mount_percents d)"
      by simp
    from Cons.IH[OF this] step e x item show ?thesis
      by (simp add: disk_alerts_def exceeds_def)
  next
    case False
    then have step: "check_mount fmt self item alerts = Inr alerts"
      by (cases dd) (auto simp: check_mount_def item map_of_in_keys)
    from False have mp: "mount_percents (item # d) = mount_percents d"
      by (cases dd) (auto simp: item split: option.splits)
    with Cons.prems have "list_all (\<lambda>(m, v). is_number v) (mount_percents d)"
      by simp
    from Cons.IH[OF this] step mp show ?thesis by simp
  qed
qed

lemma check_disk_result:
  assumes "map_of (alert_thresholds self) ''disk_percent'' = Some t"
    and "list_all (\<lambda>(m, v). is_number v) (disk_percents health_data)"
  shows "check_disk fmt self health_data alerts =
           Inr (alerts @ disk_alerts fmt (disk_percents health_data) t)"
proof (cases "\<exists>d. map_of health_data ''disk_info'' = Some (PDict d)")
  case True
  then obtain d where d: "map_of health_data ''disk_info'' = Some (PDict d)" by blast
  with assms(2) have "list_all (\<lambda>(m, v). is_number v) (mount_percents d)"
    by (simp add: disk_percents_def)
  from disk_loop_result[OF assms(1) this] d show ?thesis
    by (simp add: check_disk_def disk_percents_def)
next
  case False
  then show ?thesis
    by (auto simp: check_disk_def disk_percents_def disk_alerts_def
        split: option.splits pyval.splits)
qed

lemma check_alerts_result:
  assumes "map_of (alert_thresholds self) ''cpu_percent'' = Some tc"
    and "map_of (alert_thresholds self) ''memory_percent'' = Some tm"
    and "map_of (alert_thresholds self) ''disk_percent'' = Some td"
    and "snapshot_typed health_data"
  shows "check_alerts fmt self health_data =
     Inr (alerts_of (cpu_message fmt) (metric health_data ''cpu_info'' ''cpu_percent'') tc
        @ alerts_of (memory_message fmt)
            (metric health_data ''memory_info'' ''memory_percent'') tm
        @ disk_alerts fmt (disk_percents health_data) td)"
  using assms
  by (simp add: check_alerts_def snapshot_typed_def check_cpu_result check_memory_result
      check_disk_result)

lemma cpu_message_prefixes:
  "prefix ''HIGH CPU USAGE: '' (cpu_message fmt v t)"
  "\<not> prefix ''HIGH MEMORY USAGE: '' (cpu_message fmt v t)"
  "\<not> prefix ''HIGH DISK USAGE: '' (cpu_message fmt v t)"
  by (simp_all add: cpu_message_def)

lemma memory_message_prefixes:
  "\<not> prefix ''HIGH CPU USAGE: '' (memory_message fmt v t)"
  "prefix ''HIGH MEMORY USAGE: '' (memory_message fmt v t)"
  "\<not> prefix ''HIGH DISK USAGE: '' (memory_message fmt v t)"
  by (simp_all add: memory_message_def)

lemma disk_message_prefixes:
  "\<not> prefix ''HIGH CPU USAGE: '' (disk_message fmt m v t)"
  "\<not> prefix ''HIGH MEMORY USAGE: '' (disk_message fmt m v t)"
  "prefix ''HIGH DISK USAGE: '' (disk_message fmt m v t)"
  by (simp_all add: disk_message_def)

lemma filter_alerts_of_cpu:
  "filter (prefix ''HIGH CPU USAGE: '') (alerts_of (cpu_message fmt) x t) = alerts_of (cpu_message fmt) x t"
  "filter (prefix ''HIGH MEMORY USAGE: '') (alerts_of (cpu_message fmt) x t) = []"
  "filter (prefix ''HIGH DISK USAGE: '') (alerts_of (cpu_message fmt) x t) = []"
  by (simp_all add: alerts_of_def cpu_message_prefixes split: option.splits)

lemma filter_alerts_of_memory:
  "filter (prefix ''HIGH CPU USAGE: '') (alerts_of (memory_message fmt) x t) = []"
  "filter (prefix ''HIGH MEMORY USAGE: '') (alerts_of (memory_message fmt) x t) = alerts_of (memory_message fmt) x t"
  "filter (prefix ''HIGH DISK USAGE: '') (alerts_of (memory_message fmt) x t) = []"
  by (simp_all add: alerts_of_def memory_message_prefixes split: option.splits)

lemma filter_disk_alerts:
  "filter (prefix ''HIGH CPU USAGE: '') (disk_alerts fmt ps t) = []"
  "filter (prefix ''HIGH MEMORY USAGE: '') (disk_alerts fmt ps t) = []"
  "filter (prefix ''HIGH DISK USAGE: '') (disk_alerts fmt ps t) = disk_alerts fmt ps t"
  by (induction ps) (simp_all add: disk_alerts_def disk_message_prefixes split: prod.splits)

lemma alerts_of_nonempty:
  "(alerts_of message x t \<noteq> []) = (\<exists>v y. x = Some v \<and> number_of v = Some y \<and> t < y)"
  by (auto simp: alerts_of_def exceeds_def split: option.splits)

lemma filter_nonempty: "(\<exists>a\<in>set xs. P a) = (filter P xs \<noteq> [])"
  by (simp add: filter_empty_conv)

lemma andthen_Inr_iff: "(andthen r f = Inr y) = (\<exists>x. r = Inr x \<and> f x = Inr y)"
  by (cases r) simp_all

lemma check_value_returns:
  assumes "check_value self c key tkey message a = Inr a'"
  shows "\<exists>d v t x. c = PDict d \<and> map_of d key = Some v \<and> threshold_of self tkey = Some t
           \<and> number_of v = Some x \<and> a' = a @ (if t < x then [message v t] else [])"
  using assms
  by (auto simp: check_value_def andthen_Inr_iff py_getitem_def threshold_def py_gt_def
      threshold_of_def split: pyval.splits option.splits)

lemma check_cpu_returns:
  assumes "check_cpu fmt self health_data a = Inr a'"
  shows "a' = a @ category_alerts (cpu_message fmt)
                    (metric health_data ''cpu_info'' ''cpu_percent'')
                    (threshold_of self ''cpu_percent'')"
proof (cases "map_of health_data ''cpu_info''")
  case None
  with assms show ?thesis
    by (simp add: check_cpu_def metric_def category_alerts_def alerts_of_def
        split: option.splits)
next
  case (Some c)
  with assms obtain present where p: "py_in ''cpu_percent'' c = Inr present"
    and r: "(if present
            then check_value self c ''cpu_percent'' ''cpu_percent'' (cpu_message fmt) a
            else Inr a) = Inr a'"
    by (auto simp: check_cpu_def andthen_Inr_iff)
  show ?thesis
  proof (cases present)
    case True
    with r check_value_returns[of self c "''cpu_percent''" "''cpu_percent''"
        "cpu_message fmt" a a']
    obtain d v t x where "c = PDict d" "map_of d ''cpu_percent'' = Some v"
      "threshold_of self ''cpu_percent'' = Some t" "number_of v = Some x"
      "a' = a @ (if t < x then [cpu_message fmt v t] else [])" by auto
    with Some show ?thesis
      by (simp add: metric_def category_alerts_def alerts_of_def exceeds_def)
  next
    case False
    with r have a': "a' = a" by simp
    from False p have "metric health_data ''cpu_info'' ''cpu_percent'' = None"
      using Some
      by (cases c) (auto simp: metric_def py_in_def map_of_eq_None_iff)
    with a' show ?thesis
      by (simp add: category_alerts_def alerts_of_def split: option.splits)
  qed
qed

lemma check_memory_returns:
  assumes "check_memory fmt self health_data a = Inr a'"
  shows "a' = a @ category_alerts (memory_message fmt)
                    (metric health_data ''memory_info'' ''memory_percent'')
                    (threshold_of self ''memory_percent'')"
proof (cases "map_of health_data ''memory_info''")
  case None
  with assms show ?thesis
    by (simp add: check_memory_def metric_def category_alerts_def alerts_of_def
        split: option.splits)
next
  case (Some c)
  with assms obtain present where p: "py_in ''memory_percent'' c = Inr present"
    and r: "(if present
            then check_value self c ''memory_percent'' ''memory_percent''
                   (memory_message fmt) a
            else Inr a) = Inr a'"
    by (auto simp: check_memory_def andthen_Inr_iff)
  show ?thesis
  proof (cases present)
    case True
    with r check_value_returns[of self c "''memory_percent''" "''memory_percent''"
        "memory_message fmt" a a']
    obtain d v t x where "c = PDict d" "map_of d ''memory_percent'' = Some v"
      "threshold_of self ''memory_percent'' = Some t" "number_of v = Some x"
      "a' = a @ (if t < x then [memory_message fmt v t] else [])" by auto
    with Some show ?thesis
      by (simp add: metric_def category_alerts_def alerts_of_def exceeds_def)
  next
    case False
    with r have a': "a' = a" by simp
    from False p have "metric health_data ''memory_info'' ''memory_percent'' = None"
      using Some
      by (cases c) (auto simp: metric_def py_in_def map_of_eq_None_iff)
    with a' show ?thesis
      by (simp add: category_alerts_def alerts_of_def split: option.splits)
  qed
qed

lemma check_mount_returns:
  assumes "check_mount fmt self item a = Inr a'"
  shows "a' = a @ mount_alerts fmt (mount_percents [item]) (threshold_of self ''disk_percent'')"
proof -
  obtain m dd where item: "item = (m, dd)" by (cases item)
  show ?thesis
  proof (cases "\<exists>e v. dd = PDict e \<and> map_of e ''percent'' = Some v")
    case True
    then obtain e v where e: "dd = PDict e" "map_of e ''percent'' = Some v" by blast
    then have "''percent'' \<in> fst ` set e" by (metis map_of_eq_None_iff option.distinct(1))
    with assms item e have
      "check_value self dd ''percent'' ''disk_percent'' (disk_message fmt m) a = Inr a'"
      by (simp add: check_mount_def)
    from check_value_returns[OF this] e obtain t x where
      "threshold_of self ''disk_percent'' = Some t" "number_of v = Some x"
      "a' = a @ (if t < x then [disk_message fmt m v t] else [])" by auto
    with item e show ?thesis
      by (simp add: mount_alerts_def disk_alerts_def exceeds_def)
  next
    case False
    then have mp: "mount_percents [item] = []"
      by (cases dd) (auto simp: item split: option.splits)
    from False assms item have "a' = a"
      by (cases dd) (auto simp: check_mount_def map_of_eq_None_iff split: if_splits)
    with mp show ?thesis
      by (simp add: mount_alerts_def disk_alerts_def split: option.splits)
  qed
qed

lemma mount_percents_Cons: "mount_percents (item # d) = mount_percents [item] @ mount_percents d"
  by (cases item) (simp split: pyval.splits option.splits)

lemma mount_alerts_append:
  "mount_alerts fmt (xs @ ys) t = mount_alerts fmt xs t @ mount_alerts fmt ys t"
  by (simp add: mount_alerts_def disk_alerts_def split: option.splits)

lemma disk_loop_returns:
  "disk_loop fmt self d a = Inr a' \<Longrightarrow>
     a' = a @ mount_alerts fmt (mount_percents d) (threshold_of self ''disk_percent'')"
proof (induction d arbitrary: a)
  case Nil
  then show ?case by (simp add: mount_alerts_def disk_alerts_def split: option.splits)
next
  case (Cons item d)
  then obtain a1 where s: "check_mount fmt self item a = Inr a1"
    and r: "disk_loop fmt self d a1 = Inr a'"
    by (auto split: sum.splits)
  from check_mount_returns[OF s] Cons.IH[OF r] show ?case
    by (simp add: mount_percents_Cons[of item d] mount_alerts_append)
qed

lemma check_disk_returns:
  assumes "check_disk fmt self health_data a = Inr a'"
  shows "a' = a @ mount_alerts fmt (disk_percents health_data)
                    (threshold_of self ''disk_percent'')"
proof (cases "\<exists>d. map_of health_data ''disk_info'' = Some (PDict d)")
  case True
  then obtain d where d: "map_of health_data ''disk_info'' = Some (PDict d)" by blast
  with assms have "disk_loop fmt self d a = Inr a'" by (simp add: check_disk_def)
  from disk_loop_returns[OF this] d show ?thesis by (simp add: disk_percents_def)
next
  case False
  with assms show ?thesis
    by (auto simp: check_disk_def disk_percents_def mount_alerts_def disk_alerts_def
        split: option.splits pyval.splits)
qed

lemma check_alerts_returns:
  assumes "check_alerts fmt self health_data = Inr alerts"
  shows "alerts =
     category_alerts (cpu_message fmt) (metric health_data ''cpu_info'' ''cpu_percent'')
       (threshold_of self ''cpu_percent'')
     @ category_alerts (memory_message fmt)
         (metric health_data ''memory_info'' ''memory_percent'')
         (threshold_of self ''memory_percent'')
     @ mount_alerts fmt (disk_percents health_data) (threshold_of self ''disk_percent'')"
proof -
  from assms obtain a1 a2 where 1: "check_cpu fmt self health_data [] = Inr a1"
    and 2: "check_memory fmt self health_data a1 = Inr a2"
    and 3: "check_disk fmt self health_data a2 = Inr alerts"
    by (auto simp: check_alerts_def andthen_Inr_iff)
  from check_cpu_returns[OF 1] check_memory_returns[OF 2] check_disk_returns[OF 3]
  show ?thesis by simp
qed


lemma check_cpu_typed:
  assumes "category_typed health_data ''cpu_info'' ''cpu_percent''"
  shows "check_cpu fmt self health_data a =
     (if metric health_data ''cpu_info'' ''cpu_percent'' \<noteq> None
         \<and> threshold_of self ''cpu_percent'' = None
      then Inl (KeyError ''cpu_percent'')
      else Inr (a @ category_alerts (cpu_message fmt)
                      (metric health_data ''cpu_info'' ''cpu_percent'')
                      (threshold_of self ''cpu_percent'')))"
proof (cases "threshold_of self ''cpu_percent''")
  case (Some t)
  then have "map_of (alert_thresholds self) ''cpu_percent'' = Some t"
    by (simp add: threshold_of_def)
  from check_cpu_result[OF assms this] Some show ?thesis
    by (simp add: category_alerts_def)
next
  case None
  then have t: "threshold self ''cpu_percent'' = Inl (KeyError ''cpu_percent'')"
    by (simp add: threshold_def threshold_of_def)
  show ?thesis
  proof (cases "metric health_data ''cpu_info'' ''cpu_percent''")
    case m: None
    show ?thesis
    proof (cases "map_of health_data ''cpu_info''")
      case n: None
      with m None show ?thesis by (simp add: check_cpu_def category_alerts_def)
    next
      case (Some c)
      with assms obtain d where c: "c = PDict d"
        by (cases c) (simp_all add: category_typed_def)
      with m Some have "map_of d ''cpu_percent'' = None" by (simp add: metric_def)
      then have "''cpu_percent'' \<notin> fst ` set d" by (simp add: map_of_eq_None_iff)
      with m None Some c show ?thesis
        by (simp add: check_cpu_def py_in_def category_alerts_def)
    qed
  next
    case (Some v)
    then obtain d where "map_of health_data ''cpu_info'' = Some (PDict d)"
      "map_of d ''cpu_percent'' = Some v"
      by (auto simp: metric_def split: option.splits pyval.splits)
    moreover from this have "''cpu_percent'' \<in> fst ` set d"
      by (metis map_of_eq_None_iff option.distinct(1))
    ultimately show ?thesis using None Some t
      by (simp add: check_cpu_def py_in_def check_value_def py_getitem_def)
  qed
qed

lemma check_memory_typed:
  assumes "category_typed health_data ''memory_info'' ''memory_percent''"
  shows "check_memory fmt self health_data a =
     (if metric health_data ''memory_info'' ''memory_percent'' \<noteq> None
         \<and> threshold_of self ''memory_percent'' = None
      then Inl (KeyError ''memory_percent'')
      else Inr (a @ category_alerts (memory_message fmt)
                      (metric health_data ''memory_info'' ''memory_percent'')
                      (threshold_of self ''memory_percent'')))"
proof (cases "threshold_of self ''memory_percent''")
  case (Some t)
  then have "map_of (alert_thresholds self) ''memory_percent'' = Some t"
    by (simp add: threshold_of_def)
  from check_memory_result[OF assms this] Some show ?thesis
    by (simp add: category_alerts_def)
next
  case None
  then have t: "threshold self ''memory_percent'' = Inl (KeyError ''memory_percent'')"
    by (simp add: threshold_def threshold_of_def)
  show ?thesis
  proof (cases "metric health_data ''memory_info'' ''memory_percent''")
    case m: None
    show ?thesis
    proof (cases "map_of health_data ''memory_info''")
      case n: None
      with m None show ?thesis by (simp add: check_memory_def category_alerts_def)
    next
      case (Some c)
      with assms obtain d where c: "c = PDict d"
        by (cases c) (simp_all add: category_typed_def)
      with m Some have "map_of d ''memory_percent'' = None" by (simp add: metric_def)
      then have "''memory_percent'' \<notin> fst ` set d" by (simp add: map_of_eq_None_iff)
      with m None Some c show ?thesis
        by (simp add: check_memory_def py_in_def category_alerts_def)
    qed
  next
    case (Some v)
    then obtain d where "map_of health_data ''memory_info'' = Some (PDict d)"
      "map_of d ''memory_percent'' = Some v"
      by (auto simp: metric_def split: option.splits pyval.splits)
    moreover from this have "''memory_percent'' \<in> fst ` set d"
      by (metis map_of_eq_None_iff option.distinct(1))
    ultimately show ?thesis using None Some t
      by (simp add: check_memory_def py_in_def check_value_def py_getitem_def)
  qed
qed

lemma disk_loop_no_threshold:
  assumes "threshold_of self ''disk_percent'' = None"
  shows "disk_loop fmt self d a =
     (if mount_percents d = [] then Inr a else Inl (KeyError ''disk_percent''))"
proof (induction d)
  case Nil
  then show ?case by simp
next
  case (Cons item d)
  obtain m dd where item: "item = (m, dd)" by (cases item)
  from assms have t: "threshold self ''disk_percent'' = Inl (KeyError ''disk_percent'')"
    by (simp add: threshold_def threshold_of_def)
  show ?case
  proof (cases "\<exists>e v. dd = PDict e \<and> map_of e ''percent'' = Some v")
    case True
    then obtain e v where e: "dd = PDict e" "map_of e ''percent'' = Some v" by blast
    then have "''percent'' \<in> fst ` set e" by (metis map_of_eq_None_iff option.distinct(1))
    with e t item show ?thesis
      by (simp add: check_mount_def check_value_def py_getitem_def)
  next
    case False
    then have mp: "mount_percents (item # d) = mount_percents d"
      by (cases dd) (auto simp: item split: option.splits)
    from False item have "check_mount fmt self item a = Inr a"
      by (cases dd) (auto simp: check_mount_def map_of_eq_None_iff)
    with Cons.IH mp show ?thesis by simp
  qed
qed

lemma check_disk_typed:
  assumes "list_all (\<lambda>(m, v). is_number v) (disk_percents health_data)"
  shows "check_disk fmt self health_data a =
     (if disk_percents health_data \<noteq> [] \<and> threshold_of self ''disk_percent'' = None
      then Inl (KeyError ''disk_percent'')
      else Inr (a @ mount_alerts fmt (disk_percents health_data)
                      (threshold_of self ''disk_percent'')))"
proof (cases "threshold_of self ''disk_percent''")
  case (Some t)
  then have "map_of (alert_thresholds self) ''disk_percent'' = Some t"
    by (simp add: threshold_of_def)
  from check_disk_result[OF this assms] Some show ?thesis
    by (simp add: mount_alerts_def)
next
  case None
  show ?thesis
  proof (cases "\<exists>d. map_of health_data ''disk_info'' = Some (PDict d)")
    case True
    then obtain d where d: "map_of health_data ''disk_info'' = Some (PDict d)" by blast
    with disk_loop_no_threshold[OF None, of fmt d a] None show ?thesis
      by (simp add: check_disk_def disk_percents_def mount_alerts_def)
  next
    case False
    with None show ?thesis
      by (auto simp: check_disk_def disk_percents_def mount_alerts_def
          split: option.splits pyval.splits)
  qed
qed

lemma check_alerts_typed:
  assumes "snapshot_typed health_data"
  shows "check_alerts fmt self health_data =
     (case missing_threshold self health_data of
        Some k \<Rightarrow> Inl (KeyError k)
      | None \<Rightarrow>
          Inr (category_alerts (cpu_message fmt)
                 (metric health_data ''cpu_info'' ''cpu_percent'')
                 (threshold_of self ''cpu_percent'')
               @ category_alerts (memory_message fmt)
                   (metric health_data ''memory_info'' ''memory_percent'')
                   (threshold_of self ''memory_percent'')
               @ mount_alerts fmt (disk_percents health_data)
                   (threshold_of self ''disk_percent'')))"
proof -
  from assms have c: "category_typed health_data ''cpu_info'' ''cpu_percent''"
    and m: "category_typed health_data ''memory_info'' ''memory_percent''"
    and d: "list_all (\<lambda>(m, v). is_number v) (disk_percents health_data)"
    by (simp_all add: snapshot_typed_def)
  show ?thesis
    unfolding check_alerts_def check_cpu_typed[OF c] check_memory_typed[OF m]
      check_disk_typed[OF d] missing_threshold_def
    by simp
qed

lemma category_alerts_nonempty:
  "(category_alerts message value topt \<noteq> []) =
     (\<exists>v x t. value = Some v \<and> number_of v = Some x \<and> topt = Some t \<and> t < x)"
  by (cases topt) (auto simp: category_alerts_def alerts_of_nonempty)

lemma filter_category_alerts_cpu:
  "filter (prefix ''HIGH CPU USAGE: '') (category_alerts (cpu_message fmt) x t)
     = category_alerts (cpu_message fmt) x t"
  "filter (prefix ''HIGH MEMORY USAGE: '') (category_alerts (cpu_message fmt) x t) = []"
  "filter (prefix ''HIGH DISK USAGE: '') (category_alerts (cpu_message fmt) x t) = []"
  by (simp_all add: category_alerts_def filter_alerts_of_cpu split: option.splits)

lemma filter_category_alerts_memory:
  "filter (prefix ''HIGH CPU USAGE: '') (category_alerts (memory_message fmt) x t) = []"
  "filter (prefix ''HIGH MEMORY USAGE: '') (category_alerts (memory_message fmt) x t)
     = category_alerts (memory_message fmt) x t"
  "filter (prefix ''HIGH DISK USAGE: '') (category_alerts (memory_message fmt) x t) = []"
  by (simp_all add: category_alerts_def filter_alerts_of_memory split: option.splits)

lemma filter_mount_alerts:
  "filter (prefix ''HIGH CPU USAGE: '') (mount_alerts fmt ps t) = []"
  "filter (prefix ''HIGH MEMORY USAGE: '') (mount_alerts fmt ps t) = []"
  "filter (prefix ''HIGH DISK USAGE: '') (mount_alerts fmt ps t) = mount_alerts fmt ps t"
  by (simp_all add: mount_alerts_def filter_disk_alerts split: option.splits)

text \<open>
  C1, as the code has it. On a typed snapshot, \<^verbatim>\<open>check_alerts\<close> raises \<^verbatim>\<open>KeyError\<close>
  when a category that holds a value has no threshold in the threshold set (the first such
  category, in the order cpu, memory, disk). For every other threshold set it returns, and
  its list has a CPU alert exactly when the CPU field holds a \<^verbatim>\<open>cpu_percent\<close> that is
  strictly greater than the CPU threshold, a memory alert exactly when the memory field
  holds a \<^verbatim>\<open>memory_percent\<close> strictly greater than the memory threshold, and as disk
  alerts exactly the messages of the mount points whose percent is strictly greater than
  the disk threshold. A value equal to its threshold gives no alert; a category that is an
  error marker holds no value, so it gives no alert and no failure, with or without a
  threshold.
\<close>

theorem check_alerts_strict_threshold:
  assumes "snapshot_typed health_data"
  shows "case missing_threshold self health_data of
           Some k \<Rightarrow> check_alerts fmt self health_data = Inl (KeyError k)
         | None \<Rightarrow>
             \<exists>alerts. check_alerts fmt self health_data = Inr alerts
               \<and> ((\<exists>a\<in>set alerts. prefix ''HIGH CPU USAGE: '' a) \<longleftrightarrow>
                    (\<exists>v x t. metric health_data ''cpu_info'' ''cpu_percent'' = Some v
                       \<and> number_of v = Some x
                       \<and> threshold_of self ''cpu_percent'' = Some t \<and> t < x))
               \<and> ((\<exists>a\<in>set alerts. prefix ''HIGH MEMORY USAGE: '' a) \<longleftrightarrow>
                    (\<exists>v x t. metric health_data ''memory_info'' ''memory_percent'' = Some v
                       \<and> number_of v = Some x
                       \<and> threshold_of self ''memory_percent'' = Some t \<and> t < x))
               \<and> filter (prefix ''HIGH DISK USAGE: '') alerts =
                    (case threshold_of self ''disk_percent'' of
                       Some td \<Rightarrow>
                         map (\<lambda>(mount_point, v). disk_message fmt mount_point v td)
                           (filter (\<lambda>(mount_point, v). exceeds v td)
                              (disk_percents health_data))
                     | None \<Rightarrow> [])"
proof (cases "missing_threshold self health_data")
  case (Some k)
  with check_alerts_typed[OF assms, of fmt self] show ?thesis by simp
next
  case None
  let ?c = "category_alerts (cpu_message fmt)
              (metric health_data ''cpu_info'' ''cpu_percent'')
              (threshold_of self ''cpu_percent'')"
  let ?m = "category_alerts (memory_message fmt)
              (metric health_data ''memory_info'' ''memory_percent'')
              (threshold_of self ''memory_percent'')"
  let ?d = "mount_alerts fmt (disk_percents health_data) (threshold_of self ''disk_percent'')"
  from None check_alerts_typed[OF assms, of fmt self]
  have res: "check_alerts fmt self health_data = Inr (?c @ ?m @ ?d)" by simp
  have c: "(\<exists>a\<in>set (?c @ ?m @ ?d). prefix ''HIGH CPU USAGE: '' a) \<longleftrightarrow>
          (\<exists>v x t. metric health_data ''cpu_info'' ''cpu_percent'' = Some v
             \<and> number_of v = Some x \<and> threshold_of self ''cpu_percent'' = Some t \<and> t < x)"
    unfolding filter_nonempty
    by (simp only: filter_append filter_category_alerts_cpu filter_category_alerts_memory
        filter_mount_alerts append_Nil2 category_alerts_nonempty)
  have m: "(\<exists>a\<in>set (?c @ ?m @ ?d). prefix ''HIGH MEMORY USAGE: '' a) \<longleftrightarrow>
          (\<exists>v x t. metric health_data ''memory_info'' ''memory_percent'' = Some v
             \<and> number_of v = Some x \<and> threshold_of self ''memory_percent'' = Some t
             \<and> t < x)"
    unfolding filter_nonempty
    by (simp only: filter_append filter_category_alerts_cpu filter_category_alerts_memory
        filter_mount_alerts append_Nil2 append_Nil category_alerts_nonempty)
  have d: "filter (prefix ''HIGH DISK USAGE: '') (?c @ ?m @ ?d) =
            (case threshold_of self ''disk_percent'' of
               Some td \<Rightarrow>
                 map (\<lambda>(mount_point, v). disk_message fmt mount_point v td)
                   (filter (\<lambda>(mount_point, v). exceeds v td) (disk_percents health_data))
             | None \<Rightarrow> [])"
    by (simp only: filter_append filter_category_alerts_cpu filter_category_alerts_memory
        filter_mount_alerts append_Nil)
      (simp add: mount_alerts_def disk_alerts_def split: option.splits)
  from res c m d have "\<exists>alerts. check_alerts fmt self health_data = Inr alerts
               \<and> ((\<exists>a\<in>set alerts. prefix ''HIGH CPU USAGE: '' a) \<longleftrightarrow>
                    (\<exists>v x t. metric health_data ''cpu_info'' ''cpu_percent'' = Some v
                       \<and> number_of v = Some x
                       \<and> threshold_of self ''cpu_percent'' = Some t \<and> t < x))
               \<and> ((\<exists>a\<in>set alerts. prefix ''HIGH MEMORY USAGE: '' a) \<longleftrightarrow>
                    (\<exists>v x t. metric health_data ''memory_info'' ''memory_percent'' = Some v
                       \<and> number_of v = Some x
                       \<and> threshold_of self ''memory_percent'' = Some t \<and> t < x))
               \<and> filter (prefix ''HIGH DISK USAGE: '') alerts =
                    (case threshold_of self ''disk_percent'' of
                       Some td \<Rightarrow>
                         map (\<lambda>(mount_point, v). disk_message fmt mount_point v td)
                           (filter (\<lambda>(mount_point, v). exceeds v td)
                              (disk_percents health_data))
                     | None \<Rightarrow> [])"
    by blast
  with None show ?thesis by simp
qed

theorem check_alerts_strict_threshold_witness:
  "snapshot_typed boundary_snapshot
   \<and> missing_threshold (init None) boundary_snapshot = None
   \<and> (\<exists>alerts.
        check_alerts (format example_runtime) (init None) boundary_snapshot = Inr alerts
        \<and> \<not> (\<exists>a\<in>set alerts. prefix ''HIGH CPU USAGE: '' a)
        \<and> \<not> (\<exists>a\<in>set alerts. prefix ''HIGH MEMORY USAGE: '' a)
        \<and> filter (prefix ''HIGH DISK USAGE: '') alerts
            = [''HIGH DISK USAGE: / at #% (threshold: #%)''])"
proof -
  let ?self = "init None" and ?hd = boundary_snapshot and ?fmt = "format example_runtime"
  have ty: "snapshot_typed ?hd"
    by (simp add: boundary_snapshot_def snapshot_typed_def category_typed_def
        disk_percents_def is_number_def number_of_def)
  have thr: "threshold_of ?self ''cpu_percent'' = Some 80"
    "threshold_of ?self ''memory_percent'' = Some 85"
    "threshold_of ?self ''disk_percent'' = Some 90"
    by (simp_all add: threshold_of_def init_def default_thresholds_def)
  have mt: "missing_threshold ?self ?hd = None"
    by (simp add: missing_threshold_def thr)
  from check_alerts_strict_threshold[OF ty, where self = ?self and fmt = ?fmt]
  obtain alerts where a: "check_alerts ?fmt ?self ?hd = Inr alerts"
    and c: "(\<exists>a\<in>set alerts. prefix ''HIGH CPU USAGE: '' a) \<longleftrightarrow>
          (\<exists>v x t. metric ?hd ''cpu_info'' ''cpu_percent'' = Some v
             \<and> number_of v = Some x \<and> threshold_of ?self ''cpu_percent'' = Some t \<and> t < x)"
    and m: "(\<exists>a\<in>set alerts. prefix ''HIGH MEMORY USAGE: '' a) \<longleftrightarrow>
          (\<exists>v x t. metric ?hd ''memory_info'' ''memory_percent'' = Some v
             \<and> number_of v = Some x \<and> threshold_of ?self ''memory_percent'' = Some t
             \<and> t < x)"
    and d: "filter (prefix ''HIGH DISK USAGE: '') alerts =
            (case threshold_of ?self ''disk_percent'' of
               Some td \<Rightarrow>
                 map (\<lambda>(mount_point, v). disk_message ?fmt mount_point v td)
                   (filter (\<lambda>(mount_point, v). exceeds v td) (disk_percents ?hd))
             | None \<Rightarrow> [])"
    unfolding mt option.case by blast
  have c': "\<not> (\<exists>a\<in>set alerts. prefix ''HIGH CPU USAGE: '' a)"
    unfolding c thr by (simp add: boundary_snapshot_def metric_def number_of_def)
  have m': "\<not> (\<exists>a\<in>set alerts. prefix ''HIGH MEMORY USAGE: '' a)"
    unfolding m by (simp add: boundary_snapshot_def metric_def)
  have d': "filter (prefix ''HIGH DISK USAGE: '') alerts
            = [''HIGH DISK USAGE: / at #% (threshold: #%)'']"
    unfolding d thr
    by (simp add: boundary_snapshot_def disk_percents_def exceeds_def number_of_def
        disk_message_def example_runtime_def)
  from ty mt a c' m' d' show ?thesis by blast
qed

text \<open>
  The claim as stated fails for a threshold set without the CPU threshold. With a CPU
  value of 10 and a memory value of 99 over the memory threshold 85, the claim has a
  memory alert and no CPU alert; \<^verbatim>\<open>check_alerts\<close> raises \<^verbatim>\<open>KeyError\<close> at the CPU check.
\<close>

theorem check_alerts_missing_threshold_counterexample:
  "alert_thresholds (init (Some [(''memory_percent'', 85)])) = [(''memory_percent'', 85)]
   \<and> cpu_under_memory_only =
       [(''cpu_info'', PDict [(''cpu_percent'', PFloat 10)]),
        (''memory_info'', PDict [(''memory_percent'', PFloat 99)])]
   \<and> check_alerts (format example_runtime) (init (Some [(''memory_percent'', 85)]))
        cpu_under_memory_only
       = Inl (KeyError ''cpu_percent'')"
  by (simp add: cpu_under_memory_only_def init_def check_alerts_def check_cpu_def
      check_value_def py_in_def py_getitem_def threshold_def)

text \<open>
  C3. For every snapshot and threshold set, a list that \<^verbatim>\<open>check_alerts\<close> returns is the
  CPU alert (if any), then the memory alert (if any), then one disk alert per offending
  mount point, in the iteration order of the disk mapping. On a typed snapshot it returns
  a list unless a category that holds a value has no threshold.
\<close>

theorem check_alerts_order:
  "(\<forall>alerts. check_alerts fmt self health_data = Inr alerts \<longrightarrow>
      alerts =
        (case metric health_data ''cpu_info'' ''cpu_percent'' of
           Some v \<Rightarrow>
             (case threshold_of self ''cpu_percent'' of
                Some t \<Rightarrow> if exceeds v t then [cpu_message fmt v t] else []
              | None \<Rightarrow> [])
         | None \<Rightarrow> [])
        @ (case metric health_data ''memory_info'' ''memory_percent'' of
             Some v \<Rightarrow>
               (case threshold_of self ''memory_percent'' of
                  Some t \<Rightarrow> if exceeds v t then [memory_message fmt v t] else []
                | None \<Rightarrow> [])
           | None \<Rightarrow> [])
        @ (case threshold_of self ''disk_percent'' of
             Some t \<Rightarrow>
               map (\<lambda>(mount_point, v). disk_message fmt mount_point v t)
                 (filter (\<lambda>(mount_point, v). exceeds v t) (disk_percents health_data))
           | None \<Rightarrow> []))
   \<and> (snapshot_typed health_data \<longrightarrow>
        (case missing_threshold self health_data of
           Some k \<Rightarrow> check_alerts fmt self health_data = Inl (KeyError k)
         | None \<Rightarrow> \<exists>alerts. check_alerts fmt self health_data = Inr alerts))"
proof (intro conjI allI impI)
  fix alerts assume "check_alerts fmt self health_data = Inr alerts"
  from check_alerts_returns[OF this] show "alerts =
        (case metric health_data ''cpu_info'' ''cpu_percent'' of
           Some v \<Rightarrow>
             (case threshold_of self ''cpu_percent'' of
                Some t \<Rightarrow> if exceeds v t then [cpu_message fmt v t] else []
              | None \<Rightarrow> [])
         | None \<Rightarrow> [])
        @ (case metric health_data ''memory_info'' ''memory_percent'' of
             Some v \<Rightarrow>
               (case threshold_of self ''memory_percent'' of
                  Some t \<Rightarrow> if exceeds v t then [memory_message fmt v t] else []
                | None \<Rightarrow> [])
           | None \<Rightarrow> [])
        @ (case threshold_of self ''disk_percent'' of
             Some t \<Rightarrow>
               map (\<lambda>(mount_point, v). disk_message fmt mount_point v t)
                 (filter (\<lambda>(mount_point, v). exceeds v t) (disk_percents health_data))
           | None \<Rightarrow> [])"
    by (simp add: category_alerts_def alerts_of_def mount_alerts_def disk_alerts_def
        split: option.splits)
next
  assume "snapshot_typed health_data"
  from check_alerts_typed[OF this, of fmt self]
  show "case missing_threshold self health_data of
           Some k \<Rightarrow> check_alerts fmt self health_data = Inl (KeyError k)
         | None \<Rightarrow> \<exists>alerts. check_alerts fmt self health_data = Inr alerts"
    by (simp split: option.splits)
qed

theorem check_alerts_order_witness:
  "alert_thresholds cpu_disk_monitor = [(''cpu_percent'', 50), (''disk_percent'', 90)]
   \<and> snapshot_typed ordered_snapshot
   \<and> missing_threshold cpu_disk_monitor ordered_snapshot = None
   \<and> check_alerts (format example_runtime) cpu_disk_monitor ordered_snapshot
      = Inr [''HIGH CPU USAGE: #% (threshold: #%)'',
             ''HIGH DISK USAGE: /srv at #% (threshold: #%)'',
             ''HIGH DISK USAGE: / at #% (threshold: #%)'']"
proof -
  let ?self = cpu_disk_monitor and ?hd = ordered_snapshot and ?fmt = "format example_runtime"
  have at: "alert_thresholds ?self = [(''cpu_percent'', 50), (''disk_percent'', 90)]"
    by (simp add: cpu_disk_monitor_def init_def)
  have ty: "snapshot_typed ?hd"
    by (simp add: ordered_snapshot_def snapshot_typed_def category_typed_def
        disk_percents_def is_number_def number_of_def)
  have thr: "threshold_of ?self ''cpu_percent'' = Some 50"
    "threshold_of ?self ''memory_percent'' = None"
    "threshold_of ?self ''disk_percent'' = Some 90"
    by (simp_all add: threshold_of_def at)
  have me: "metric ?hd ''memory_info'' ''memory_percent'' = None"
    by (simp add: ordered_snapshot_def metric_def)
  have mt: "missing_threshold ?self ?hd = None"
    by (simp add: missing_threshold_def thr me)
  note order = check_alerts_order[where self = ?self and fmt = ?fmt and health_data = ?hd]
  from order ty mt obtain alerts where a: "check_alerts ?fmt ?self ?hd = Inr alerts"
    by auto
  with order have "alerts =
        (case metric ?hd ''cpu_info'' ''cpu_percent'' of
           Some v \<Rightarrow>
             (case threshold_of ?self ''cpu_percent'' of
                Some t \<Rightarrow> if exceeds v t then [cpu_message ?fmt v t] else []
              | None \<Rightarrow> [])
         | None \<Rightarrow> [])
        @ (case metric ?hd ''memory_info'' ''memory_percent'' of
             Some v \<Rightarrow>
               (case threshold_of ?self ''memory_percent'' of
                  Some t \<Rightarrow> if exceeds v t then [memory_message ?fmt v t] else []
                | None \<Rightarrow> [])
           | None \<Rightarrow> [])
        @ (case threshold_of ?self ''disk_percent'' of
             Some t \<Rightarrow>
               map (\<lambda>(mount_point, v). disk_message ?fmt mount_point v t)
                 (filter (\<lambda>(mount_point, v). exceeds v t) (disk_percents ?hd))
           | None \<Rightarrow> [])"
    by blast
  then have "alerts = [''HIGH CPU USAGE: #% (threshold: #%)'',
             ''HIGH DISK USAGE: /srv at #% (threshold: #%)'',
             ''HIGH DISK USAGE: / at #% (threshold: #%)'']"
    unfolding thr me
    by (simp add: ordered_snapshot_def metric_def disk_percents_def exceeds_def
        number_of_def cpu_message_def disk_message_def example_runtime_def)
  with a at ty mt show ?thesis by simp
qed

section \<open>Disk collection under failing lookups\<close>

lemma is_error_marker_failed [simp]: "is_error_marker (failed what e)"
  by (cases e) (simp add: is_error_marker_def)

lemma step_ok:
  assumes "usage_ok os part"
  shows "\<exists>usage entry. disk_usage os (mountpoint part) = Inr usage
           \<and> disk_entry rt part usage = Inr entry
           \<and> andthen (disk_usage os (mountpoint part)) (disk_entry rt part) = Inr entry"
  using assms by (auto simp: usage_ok_def disk_entry_def split: sum.splits)

lemma step_denied:
  assumes "usage_denied os part"
  shows "\<exists>msg. andthen (disk_usage os (mountpoint part)) (disk_entry rt part)
           = Inl (Raised PermissionError msg)"
  using assms
  by (auto simp: usage_denied_def split: sum.splits raised.splits exc_class.splits)

lemma step_other:
  assumes "\<not> usage_ok os part" and "\<not> usage_denied os part"
  shows "\<exists>c msg. andthen (disk_usage os (mountpoint part)) (disk_entry rt part)
           = Inl (Raised c msg) \<and> c \<noteq> PermissionError"
  using assms
  by (auto simp: usage_ok_def usage_denied_def disk_entry_def
      split: sum.splits raised.splits exc_class.splits)

lemma ok_not_denied: "usage_ok os part \<Longrightarrow> \<not> usage_denied os part"
  by (auto simp: usage_ok_def usage_denied_def split: sum.splits)

lemma loop_other:
  assumes "\<exists>p\<in>set parts. \<not> usage_ok os p \<and> \<not> usage_denied os p"
  shows "\<exists>e. disk_partitions_loop rt os parts acc = Inl e"
  using assms
proof (induction parts arbitrary: acc)
  case Nil
  then show ?case by simp
next
  case (Cons part parts)
  consider (ok) "usage_ok os part" | (denied) "usage_denied os part"
    | (other) "\<not> usage_ok os part" "\<not> usage_denied os part" by blast
  then show ?case
  proof cases
    case ok
    from step_ok[OF ok, of rt] obtain entry where
      s: "andthen (disk_usage os (mountpoint part)) (disk_entry rt part) = Inr entry"
      by blast
    from ok Cons.prems have "\<exists>p\<in>set parts. \<not> usage_ok os p \<and> \<not> usage_denied os p"
      using ok_not_denied by auto
    from Cons.IH[OF this] s show ?thesis by simp
  next
    case denied
    from step_denied[OF denied, of rt] obtain msg where
      s: "andthen (disk_usage os (mountpoint part)) (disk_entry rt part)
            = Inl (Raised PermissionError msg)" by blast
    from denied Cons.prems have "\<exists>p\<in>set parts. \<not> usage_ok os p \<and> \<not> usage_denied os p"
      by auto
    from Cons.IH[OF this] s show ?thesis by simp
  next
    case other
    from step_other[OF other, of rt] obtain c msg where
      s: "andthen (disk_usage os (mountpoint part)) (disk_entry rt part) = Inl (Raised c msg)"
      and c: "c \<noteq> PermissionError" by blast
    from s c show ?thesis by (cases c) simp_all
  qed
qed

lemma set_update_subset: "set (AList.update k v al) \<subseteq> insert (k, v) (set al)"
  by (induction al) auto

lemma loop_ok:
  assumes "\<forall>p\<in>set parts. usage_ok os p \<or> usage_denied os p"
  shows "\<exists>d. disk_partitions_loop rt os parts acc = Inr d
           \<and> fst ` set d = fst ` set acc \<union> mountpoint ` {p \<in> set parts. usage_ok os p}
           \<and> (distinct (map fst acc) \<longrightarrow> distinct (map fst d))
           \<and> (\<forall>item\<in>set d. item \<in> set acc \<or> entry_of rt os parts item)"
  using assms
proof (induction parts arbitrary: acc)
  case Nil
  then show ?case by simp
next
  case (Cons part parts)
  then have rest: "\<forall>p\<in>set parts. usage_ok os p \<or> usage_denied os p" by simp
  have mono: "entry_of rt os parts item \<Longrightarrow> entry_of rt os (part # parts) item" for item
    by (auto simp: entry_of_def)
  show ?case
  proof (cases "usage_ok os part")
    case True
    from step_ok[OF True, of rt] obtain usage entry where
      u: "disk_usage os (mountpoint part) = Inr usage"
      and e: "disk_entry rt part usage = Inr entry"
      and s: "andthen (disk_usage os (mountpoint part)) (disk_entry rt part) = Inr entry"
      by blast
    let ?acc = "AList.update (mountpoint part) entry acc"
    from Cons.IH[OF rest, of ?acc] obtain d where
      d: "disk_partitions_loop rt os parts ?acc = Inr d"
      and keys: "fst ` set d = fst ` set ?acc \<union> mountpoint ` {p \<in> set parts. usage_ok os p}"
      and dist: "distinct (map fst ?acc) \<longrightarrow> distinct (map fst d)"
      and ent: "\<forall>item\<in>set d. item \<in> set ?acc \<or> entry_of rt os parts item"
      by blast
    have new: "entry_of rt os (part # parts) (mountpoint part, entry)"
      using s by (auto simp: entry_of_def)
    have 1: "disk_partitions_loop rt os (part # parts) acc = Inr d"
      using s d by simp
    have 2: "fst ` set d = fst ` set acc
               \<union> mountpoint ` {p \<in> set (part # parts). usage_ok os p}"
      using keys True by (auto simp: dom_update)
    have 3: "distinct (map fst acc) \<longrightarrow> distinct (map fst d)"
      using dist by (simp add: distinct_update)
    have 4: "\<forall>item\<in>set d. item \<in> set acc \<or> entry_of rt os (part # parts) item"
    proof
      fix item assume "item \<in> set d"
      with ent have "item \<in> set ?acc \<or> entry_of rt os parts item" by blast
      then show "item \<in> set acc \<or> entry_of rt os (part # parts) item"
        using set_update_subset[of "mountpoint part" entry acc] new mono by blast
    qed
    from 1 2 3 4 show ?thesis by blast
  next
    case False
    with Cons.prems have denied: "usage_denied os part" by simp
    from step_denied[OF denied, of rt] obtain msg where
      s: "andthen (disk_usage os (mountpoint part)) (disk_entry rt part)
            = Inl (Raised PermissionError msg)" by blast
    from Cons.IH[OF rest, of acc] obtain d where
      d: "disk_partitions_loop rt os parts acc = Inr d"
      and keys: "fst ` set d = fst ` set acc \<union> mountpoint ` {p \<in> set parts. usage_ok os p}"
      and dist: "distinct (map fst acc) \<longrightarrow> distinct (map fst d)"
      and ent: "\<forall>item\<in>set d. item \<in> set acc \<or> entry_of rt os parts item"
      by blast
    have 1: "disk_partitions_loop rt os (part # parts) acc = Inr d"
      using s d by simp
    have 2: "fst ` set d = fst ` set acc
               \<union> mountpoint ` {p \<in> set (part # parts). usage_ok os p}"
      using keys False by auto
    have 4: "\<forall>item\<in>set d. item \<in> set acc \<or> entry_of rt os (part # parts) item"
      using ent mono by blast
    from 1 2 dist 4 show ?thesis by blast
  qed
qed

text \<open>
  C4, as the code has it. When the enumeration of the partitions fails, the disk category
  is an error marker. When it succeeds and the usage step of every partition either
  succeeds or is denied with \<^verbatim>\<open>PermissionError\<close>, the result is a dict whose keys are
  exactly the mount points whose step succeeded: the denied partitions are dropped and
  every other one has its entry. When the usage step of some partition fails in any other
  way, the whole category is an error marker although the enumeration succeeded.
\<close>

theorem get_disk_info_partial_failure:
  "(case disk_partitions os of
      Inl e \<Rightarrow> is_error_marker (get_disk_info rt os)
    | Inr parts \<Rightarrow>
        if \<forall>p\<in>set parts. usage_ok os p \<or> usage_denied os p
        then \<exists>disk_info. get_disk_info rt os = PDict disk_info
               \<and> distinct (map fst disk_info)
               \<and> set (map fst disk_info) = set (map mountpoint (filter (usage_ok os) parts))
               \<and> (\<forall>p\<in>set parts. usage_denied os p \<longrightarrow>
                     mountpoint p \<notin> set (map fst disk_info))
               \<and> (\<forall>item\<in>set disk_info. entry_of rt os parts item)
        else is_error_marker (get_disk_info rt os))"
proof (cases "disk_partitions os")
  case (Inl e)
  then show ?thesis by (simp add: get_disk_info_def guarded_def)
next
  case (Inr parts)
  show ?thesis
  proof (cases "\<forall>p\<in>set parts. usage_ok os p \<or> usage_denied os p")
    case True
    from loop_ok[OF True, of rt "[]"] obtain d where
      d: "disk_partitions_loop rt os parts [] = Inr d"
      and keys: "fst ` set d = mountpoint ` {p \<in> set parts. usage_ok os p}"
      and dist: "distinct (map fst d)"
      and ent: "\<forall>item\<in>set d. entry_of rt os parts item"
      by auto
    have res: "get_disk_info rt os = PDict d"
      using Inr d by (simp add: get_disk_info_def guarded_def)
    have den: "\<forall>p\<in>set parts. usage_denied os p \<longrightarrow> mountpoint p \<notin> set (map fst d)"
    proof (intro ballI impI notI)
      fix p assume p: "p \<in> set parts" "usage_denied os p" "mountpoint p \<in> set (map fst d)"
      with keys obtain q where q: "q \<in> set parts" "usage_ok os q" "mountpoint q = mountpoint p"
        by auto
      from q(2,3) p(2) show False
        by (auto simp: usage_ok_def usage_denied_def split: sum.splits)
    qed
    have keys': "set (map fst d) = set (map mountpoint (filter (usage_ok os) parts))"
      using keys by auto
    from res dist keys' den ent have
      "\<exists>disk_info. get_disk_info rt os = PDict disk_info
               \<and> distinct (map fst disk_info)
               \<and> set (map fst disk_info) = set (map mountpoint (filter (usage_ok os) parts))
               \<and> (\<forall>p\<in>set parts. usage_denied os p \<longrightarrow>
                     mountpoint p \<notin> set (map fst disk_info))
               \<and> (\<forall>item\<in>set disk_info. entry_of rt os parts item)"
      by blast
    then show ?thesis unfolding Inr sum.case if_P[OF True] .
  next
    case False
    then have "\<exists>p\<in>set parts. \<not> usage_ok os p \<and> \<not> usage_denied os p" by blast
    from loop_other[OF this, of rt "[]"] obtain e where
      "disk_partitions_loop rt os parts [] = Inl e" by blast
    with Inr have "is_error_marker (get_disk_info rt os)"
      by (simp add: get_disk_info_def guarded_def)
    then show ?thesis unfolding Inr sum.case if_not_P[OF False] .
  qed
qed

theorem get_disk_info_partial_failure_witness:
  "disk_partitions example_host =
     Inr [\<lparr>device = ''/dev/sda1'', mountpoint = ''/'', fstype = ''ext4''\<rparr>,
          \<lparr>device = ''/dev/sdb1'', mountpoint = ''/backup'', fstype = ''ext4''\<rparr>,
          \<lparr>device = ''/dev/sda2'', mountpoint = ''/home'', fstype = ''ext4''\<rparr>]
   \<and> usage_ok example_host \<lparr>device = ''/dev/sda1'', mountpoint = ''/'', fstype = ''ext4''\<rparr>
   \<and> usage_denied example_host
        \<lparr>device = ''/dev/sdb1'', mountpoint = ''/backup'', fstype = ''ext4''\<rparr>
   \<and> usage_ok example_host \<lparr>device = ''/dev/sda2'', mountpoint = ''/home'', fstype = ''ext4''\<rparr>
   \<and> (\<exists>disk_info. get_disk_info example_runtime example_host = PDict disk_info
         \<and> distinct (map fst disk_info)
         \<and> set (map fst disk_info) = {''/'', ''/home''})"
proof -
  let ?a = "\<lparr>device = ''/dev/sda1'', mountpoint = ''/'', fstype = ''ext4''\<rparr>"
  let ?b = "\<lparr>device = ''/dev/sdb1'', mountpoint = ''/backup'', fstype = ''ext4''\<rparr>"
  let ?c = "\<lparr>device = ''/dev/sda2'', mountpoint = ''/home'', fstype = ''ext4''\<rparr>"
  have parts: "disk_partitions example_host = Inr [?a, ?b, ?c]"
    by (simp add: example_host_def)
  have a: "usage_ok example_host ?a" by (simp add: usage_ok_def example_host_def)
  have b: "usage_denied example_host ?b" by (simp add: usage_denied_def example_host_def)
  have c: "usage_ok example_host ?c" by (simp add: usage_ok_def example_host_def)
  have nb: "\<not> usage_ok example_host ?b" by (simp add: usage_ok_def example_host_def)
  have all: "\<forall>p\<in>set [?a, ?b, ?c]. usage_ok example_host p \<or> usage_denied example_host p"
    using a b c by simp
  have keys: "set (map mountpoint (filter (usage_ok example_host) [?a, ?b, ?c]))
                = {''/'', ''/home''}"
    using a nb c by simp
  from get_disk_info_partial_failure[where os = example_host and rt = example_runtime]
  have "\<exists>disk_info. get_disk_info example_runtime example_host = PDict disk_info
         \<and> distinct (map fst disk_info)
         \<and> set (map fst disk_info) = {''/'', ''/home''}"
    unfolding parts sum.case if_P[OF all] keys by blast
  with parts a b c show ?thesis by blast
qed

text \<open>
  The claim as stated fails: on this host the enumeration succeeds and the lookups of "/"
  and "/home" succeed, but the lookup of "/backup" raises an I/O error, and the result has
  no entry at all, only the error marker.
\<close>

theorem get_disk_info_other_failure_counterexample:
  "disk_partitions io_error_host =
     Inr [\<lparr>device = ''/dev/sda1'', mountpoint = ''/'', fstype = ''ext4''\<rparr>,
          \<lparr>device = ''/dev/sdb1'', mountpoint = ''/backup'', fstype = ''ext4''\<rparr>,
          \<lparr>device = ''/dev/sda2'', mountpoint = ''/home'', fstype = ''ext4''\<rparr>]
   \<and> disk_usage io_error_host ''/'' =
       Inr \<lparr>du_total = 4294967296, du_used = 1073741824, du_free = 3221225472\<rparr>
   \<and> disk_usage io_error_host ''/backup'' =
       Inl (Raised OtherException ''[Errno 5] Input/output error'')
   \<and> disk_usage io_error_host ''/home'' =
       Inr \<lparr>du_total = 4294967296, du_used = 1073741824, du_free = 3221225472\<rparr>
   \<and> get_disk_info example_runtime io_error_host =
       PDict [(''error'', PStr ''Failed to get disk info: [Errno 5] Input/output error'')]"
  by (simp add: io_error_host_def example_host_def get_disk_info_def guarded_def
      disk_entry_def)

section \<open>Process collection\<close>

lemma process_loop_skippable:
  "list_all skippable procs \<Longrightarrow>
     process_loop procs processes = Inr (processes @ readable procs)"
proof (induction procs arbitrary: processes)
  case Nil
  then show ?case by simp
next
  case (Cons proc procs)
  then have rest: "list_all skippable procs" by simp
  show ?case
  proof (cases proc)
    case (Inr info)
    with Cons.IH[OF rest] show ?thesis by simp
  next
    case (Inl e)
    obtain c msg where e: "e = Raised c msg" by (cases e)
    from Cons.prems Inl e have "c = NoSuchProcess \<or> c = AccessDenied"
      by (cases c) (simp_all add: skippable_def)
    with Cons.IH[OF rest] Inl e show ?thesis by auto
  qed
qed

lemma length_readable:
  "int (length (readable procs)) = int (length procs) - int (length (filter isl procs))"
  by (induction procs rule: readable.induct) auto




lemma get_process_info_result:
  assumes "process_iter os = Inr procs" and "list_all skippable procs"
  shows "get_process_info rt os top_n =
     PDict
       [(''total_processes'', PInt (int (length (readable procs)))),
        (''top_cpu_processes'',
           PList (map info_dict (slice_to top_n (sorted_reverse cpu_key (readable procs))))),
        (''top_memory_processes'',
           PList (map info_dict
             (slice_to top_n (sorted_reverse memory_key (readable procs)))))]"
proof -
  have k: "(\<lambda>x. or_zero (info_cpu_percent x)) = cpu_key"
    "(\<lambda>x. or_zero (info_memory_percent x)) = memory_key"
    by (simp_all add: cpu_key_def memory_key_def fun_eq_iff)
  show ?thesis
    using assms
    by (simp add: get_process_info_def guarded_def process_loop_skippable k)
qed

lemma set_slice_to: "set (slice_to n xs) \<subseteq> set xs"
  by (auto simp: slice_to_def dest: in_set_takeD)

lemma set_sorted_reverse: "set (sorted_reverse key xs) = set xs"
  by (simp add: sorted_reverse_def)

lemma example_process_iter: "process_iter example_host = Inr example_processes"
  by (simp add: example_host_def example_processes_def)

lemma example_skippable: "list_all skippable example_processes"
  by (simp add: example_processes_def skippable_def)

text \<open>
  C7. When the enumeration meets vanished or inaccessible processes,
  \<^verbatim>\<open>total_processes\<close> is the number of processes that were read (the total minus the
  unreadable ones), and both top lists hold only processes that were read.
\<close>

theorem get_process_info_skips_unreadable:
  assumes "process_iter os = Inr procs" and "list_all skippable procs"
  shows "\<exists>top_cpu top_memory.
     get_process_info rt os top_n =
       PDict
         [(''total_processes'', PInt (int (length (readable procs)))),
          (''top_cpu_processes'', PList (map info_dict top_cpu)),
          (''top_memory_processes'', PList (map info_dict top_memory))]
     \<and> set top_cpu \<subseteq> set (readable procs)
     \<and> set top_memory \<subseteq> set (readable procs)
     \<and> int (length (readable procs)) = int (length procs) - int (length (filter isl procs))"
proof -
  let ?c = "slice_to top_n (sorted_reverse cpu_key (readable procs))"
  let ?m = "slice_to top_n (sorted_reverse memory_key (readable procs))"
  have c: "set ?c \<subseteq> set (readable procs)"
    using set_slice_to[of top_n "sorted_reverse cpu_key (readable procs)"]
    by (simp add: set_sorted_reverse)
  have m: "set ?m \<subseteq> set (readable procs)"
    using set_slice_to[of top_n "sorted_reverse memory_key (readable procs)"]
    by (simp add: set_sorted_reverse)
  from get_process_info_result[OF assms, of rt top_n] c m length_readable[of procs]
  show ?thesis by blast
qed

theorem get_process_info_skips_unreadable_witness:
  "process_iter example_host = Inr example_processes
   \<and> list_all skippable example_processes
   \<and> length example_processes = 6
   \<and> length (filter isl example_processes) = 2
   \<and> (\<exists>top_cpu top_memory.
        get_process_info example_runtime example_host 5 =
          PDict
            [(''total_processes'', PInt 4),
             (''top_cpu_processes'', PList (map info_dict top_cpu)),
             (''top_memory_processes'', PList (map info_dict top_memory))]
        \<and> set top_cpu \<subseteq> set (readable example_processes)
        \<and> set top_memory \<subseteq> set (readable example_processes))"
proof -
  have n: "length example_processes = 6" "length (filter isl example_processes) = 2"
    by (simp_all add: example_processes_def)
  from get_process_info_skips_unreadable[OF example_process_iter example_skippable,
      of example_runtime 5]
  obtain top_cpu top_memory where
    r: "get_process_info example_runtime example_host 5 =
          PDict
            [(''total_processes'', PInt (int (length (readable example_processes)))),
             (''top_cpu_processes'', PList (map info_dict top_cpu)),
             (''top_memory_processes'', PList (map info_dict top_memory))]"
    and s: "set top_cpu \<subseteq> set (readable example_processes)"
      "set top_memory \<subseteq> set (readable example_processes)"
    and l: "int (length (readable example_processes)) =
              int (length example_processes) - int (length (filter isl example_processes))"
    by blast
  from l n have "int (length (readable example_processes)) = 4" by simp
  with r s example_process_iter example_skippable n show ?thesis by auto
qed



section \<open>The collected snapshot\<close>





















section \<open>The store model computes the alerts of the value model\<close>

text \<open>
  When the store holds the health data and the float thresholds of the monitor, and
  numbers are formatted on the store as they are as values, \<^verbatim>\<open>check_alerts\<close> on the
  store raises what \<^verbatim>\<open>check_alerts\<close> on values raises, and otherwise returns a new list
  of exactly its alerts.
\<close>

lemma represents_extend:
  assumes "represents h v pv" and "length h \<le> length h'" and "\<forall>a<length h. h' ! a = h ! a"
  shows "represents h' v pv"
  using assms(1)
proof (induction rule: represents.induct)
  case (list a vs pvs)
  from list(3) have "list_all2 (represents h') vs pvs"
    by (rule list_all2_mono) simp
  with list(1,2) assms(2,3) show ?case by (intro represents.list) auto
next
  case (tuple a vs pvs)
  from tuple(3) have "list_all2 (represents h') vs pvs"
    by (rule list_all2_mono) simp
  with tuple(1,2) assms(2,3) show ?case by (intro represents.tuple) auto
next
  case (dict a d pd)
  from dict(4) have "list_all2 (represents h') (map snd d) (map snd pd)"
    by (rule list_all2_mono) simp
  with dict(1,2,3) assms(2,3) show ?case by (intro represents.dict) auto
qed (auto intro: represents.intros)

lemma represents_str_left: "represents h (HStr k) pv \<longleftrightarrow> pv = PStr k"
  by (auto elim: represents.cases intro: represents.intros)

lemma represents_str_right: "represents h v (PStr k) \<longleftrightarrow> v = HStr k"
  by (auto elim: represents.cases intro: represents.intros)

lemma str_member:
  "list_all2 (represents h) vs pvs \<Longrightarrow> (HStr k \<in> set vs) = (PStr k \<in> set pvs)"
  by (induction rule: list_all2_induct)
    (auto simp: represents_str_left represents_str_right)

lemma represents_in:
  assumes "represents h v pv"
  shows "h_in h k v = (case py_in k pv of Inl e \<Rightarrow> Inl (Raise e) | Inr b \<Rightarrow> Inr b)"
  using assms
proof (cases rule: represents.cases)
  case (dict a d pd)
  then have "fst ` set d = fst ` set pd" by (metis list.set_map)
  with dict show ?thesis by (simp add: h_in_def py_in_def deref_def)
qed (simp_all add: h_in_def py_in_def deref_def str_member)

lemma map_of_represents:
  "map fst d = map fst pd \<Longrightarrow> list_all2 R (map snd d) (map snd pd) \<Longrightarrow>
     rel_option R (map_of d k) (map_of pd k)"
proof (induction d arbitrary: pd)
  case Nil
  then show ?case by simp
next
  case (Cons x d)
  then obtain y pd' where pd: "pd = y # pd'" by (cases pd) auto
  with Cons.prems have "fst x = fst y" "R (snd x) (snd y)" "map fst d = map fst pd'"
    "list_all2 R (map snd d) (map snd pd')" by auto
  with Cons.IH[of pd'] pd show ?case by (cases x; cases y) auto
qed

lemma represents_getitem:
  assumes "represents h v pv"
  shows "case py_getitem pv k of
           Inl e \<Rightarrow> h_getitem h v k = Inl (Raise e)
         | Inr pv' \<Rightarrow> \<exists>v'. h_getitem h v k = Inr v' \<and> represents h v' pv'"
  using assms
proof (cases rule: represents.cases)
  case (dict a d pd)
  from map_of_represents[OF dict(5,6), of k]
  have "rel_option (represents h) (map_of d k) (map_of pd k)" .
  with dict show ?thesis
    by (cases "map_of d k"; cases "map_of pd k")
      (simp_all add: h_getitem_def py_getitem_def deref_def)
qed (simp_all add: h_getitem_def py_getitem_def deref_def)

lemma represents_gt:
  assumes "represents h v pv"
  shows "h_gt py h v (HFloat t) =
           (case py_gt pv t of Inl e \<Rightarrow> Inl (Raise e) | Inr g \<Rightarrow> Inr g)"
  using assms
  by (cases rule: represents.cases)
    (simp_all add: h_gt_def h_number_def py_gt_def number_of_def)

lemma stored_threshold:
  assumes "thresholds < length h"
    and "h ! thresholds = HDict (map (\<lambda>(k, t). (k, HFloat t)) (alert_thresholds self))"
  shows "h_getitem h (HRef thresholds) k =
           (case threshold self k of Inl e \<Rightarrow> Inl (Raise e) | Inr t \<Rightarrow> Inr (HFloat t))"
  using assms
  by (cases "map_of (alert_thresholds self) k")
    (simp_all add: h_getitem_def threshold_def deref_def map_of_map)

lemma append_alert:
  "h_append (h0 @ [HList xs]) (length h0) x = (Inr (), h0 @ [HList (xs @ [x])])"
  by (simp add: h_append_def deref_def)

lemma format_number:
  assumes "represents h v pv" and "py_gt pv t = Inr g"
    and "\<And>h i. format_h py h (HInt i) = fmt (PInt i)"
    and "\<And>h x. format_h py h (HFloat x) = fmt (PFloat x)"
    and "\<And>h b. format_h py h (HBool b) = fmt (PBool b)"
  shows "format_h py h v = fmt pv"
  using assms(1,2)
  by (cases rule: represents.cases) (simp_all add: assms(3-5) py_gt_def number_of_def)

lemma check_value_refines:
  assumes c: "represents (h0 @ [HList (map HStr alerts)]) container pc"
    and t: "thresholds < length h0"
      "h0 ! thresholds = HDict (map (\<lambda>(k, t). (k, HFloat t)) (alert_thresholds self))"
    and f: "\<And>h i. format_h py h (HInt i) = fmt (PInt i)"
      "\<And>h x. format_h py h (HFloat x) = fmt (PFloat x)"
      "\<And>h b. format_h py h (HBool b) = fmt (PBool b)"
    and m: "\<And>pv t. message pv t = message_h (fmt pv) (fmt (PFloat t))"
  shows "check_value_h py (HRef thresholds) container key tkey message_h (length h0)
           (h0 @ [HList (map HStr alerts)]) =
         (case check_value self pc key tkey message alerts of
            Inl e \<Rightarrow> (Inl (Raise e), h0 @ [HList (map HStr alerts)])
          | Inr alerts' \<Rightarrow> (Inr (), h0 @ [HList (map HStr alerts')]))"
proof -
  let ?h = "h0 @ [HList (map HStr alerts)]"
  have th: "h_getitem ?h (HRef thresholds) tkey =
           (case threshold self tkey of Inl e \<Rightarrow> Inl (Raise e) | Inr t \<Rightarrow> Inr (HFloat t))"
    using t by (intro stored_threshold) (simp_all add: nth_append)
  show ?thesis
  proof (cases "py_getitem pc key")
    case (Inl e)
    with represents_getitem[OF c, of key] show ?thesis
      by (simp add: check_value_h_def check_value_def)
  next
    case (Inr pv)
    with represents_getitem[OF c, of key] obtain v where
      v: "h_getitem ?h container key = Inr v" and r: "represents ?h v pv" by auto
    show ?thesis
    proof (cases "threshold self tkey")
      case (Inl e)
      with Inr v th show ?thesis by (simp add: check_value_h_def check_value_def)
    next
      case tr: (Inr tv)
      show ?thesis
      proof (cases "py_gt pv tv")
        case (Inl e)
        with Inr v th tr represents_gt[OF r, of py tv] show ?thesis
          by (simp add: check_value_h_def check_value_def)
      next
        case g: (Inr g)
        have fv: "format_h py ?h v = fmt pv"
          using r g f by (rule format_number)
        from Inr v th tr g represents_gt[OF r, of py tv] show ?thesis
          using append_alert[of h0 "map HStr alerts" "HStr (message pv tv)"]
          by (simp add: check_value_h_def check_value_def fv f m)
      qed
    qed
  qed
qed

lemma category_refines:
  assumes "represents h health_data (PDict snapshot)"
  shows "case map_of snapshot c of
           None \<Rightarrow> category_h h health_data c = Inr None
         | Some pv \<Rightarrow> \<exists>v. category_h h health_data c = Inr (Some v) \<and> represents h v pv"
proof (cases "map_of snapshot c")
  case None
  then have "c \<notin> fst ` set snapshot" by (simp add: map_of_eq_None_iff)
  with None represents_in[OF assms, of c] show ?thesis
    by (simp add: category_h_def py_in_def)
next
  case (Some pv)
  then have "c \<in> fst ` set snapshot" by (metis map_of_eq_None_iff option.distinct(1))
  with Some represents_in[OF assms, of c] represents_getitem[OF assms, of c]
  show ?thesis by (auto simp: category_h_def py_in_def py_getitem_def)
qed

lemma cpu_message_formats:
  "cpu_message fmt pv t = cpu_message_h (fmt pv) (fmt (PFloat t))"
  by (simp add: cpu_message_def cpu_message_h_def)

lemma memory_message_formats:
  "memory_message fmt pv t = memory_message_h (fmt pv) (fmt (PFloat t))"
  by (simp add: memory_message_def memory_message_h_def)

lemma disk_message_formats:
  "disk_message fmt m pv t = disk_message_h m (fmt pv) (fmt (PFloat t))"
  by (simp add: disk_message_def disk_message_h_def)

lemma check_cpu_refines:
  assumes r: "represents (h0 @ [HList (map HStr alerts)]) health_data (PDict snapshot)"
    and t: "thresholds < length h0"
      "h0 ! thresholds = HDict (map (\<lambda>(k, t). (k, HFloat t)) (alert_thresholds self))"
    and f: "\<And>h i. format_h py h (HInt i) = fmt (PInt i)"
      "\<And>h x. format_h py h (HFloat x) = fmt (PFloat x)"
      "\<And>h b. format_h py h (HBool b) = fmt (PBool b)"
  shows "check_metric_h py (HRef thresholds) health_data ''cpu_info'' ''cpu_percent''
           cpu_message_h (length h0) (h0 @ [HList (map HStr alerts)]) =
         (case check_cpu fmt self snapshot alerts of
            Inl e \<Rightarrow> (Inl (Raise e), h0 @ [HList (map HStr alerts)])
          | Inr alerts' \<Rightarrow> (Inr (), h0 @ [HList (map HStr alerts')]))"
proof (cases "map_of snapshot ''cpu_info''")
  case None
  with category_refines[OF r, of "''cpu_info''"] show ?thesis
    by (simp add: check_metric_h_def check_cpu_def)
next
  case (Some pv)
  with category_refines[OF r, of "''cpu_info''"] obtain v where
    v: "category_h (h0 @ [HList (map HStr alerts)]) health_data ''cpu_info'' = Inr (Some v)"
    and rv: "represents (h0 @ [HList (map HStr alerts)]) v pv" by auto
  show ?thesis
  proof (cases "py_in ''cpu_percent'' pv")
    case (Inl e)
    with Some v represents_in[OF rv, of "''cpu_percent''"] show ?thesis
      by (simp add: check_metric_h_def check_cpu_def)
  next
    case (Inr present)
    with Some v represents_in[OF rv, of "''cpu_percent''"]
      check_value_refines[where message = "cpu_message fmt" and message_h = cpu_message_h
        and key = "''cpu_percent''" and tkey = "''cpu_percent''",
        OF rv t f cpu_message_formats]
    show ?thesis by (simp add: check_metric_h_def check_cpu_def)
  qed
qed

lemma check_memory_refines:
  assumes r: "represents (h0 @ [HList (map HStr alerts)]) health_data (PDict snapshot)"
    and t: "thresholds < length h0"
      "h0 ! thresholds = HDict (map (\<lambda>(k, t). (k, HFloat t)) (alert_thresholds self))"
    and f: "\<And>h i. format_h py h (HInt i) = fmt (PInt i)"
      "\<And>h x. format_h py h (HFloat x) = fmt (PFloat x)"
      "\<And>h b. format_h py h (HBool b) = fmt (PBool b)"
  shows "check_metric_h py (HRef thresholds) health_data ''memory_info'' ''memory_percent''
           memory_message_h (length h0) (h0 @ [HList (map HStr alerts)]) =
         (case check_memory fmt self snapshot alerts of
            Inl e \<Rightarrow> (Inl (Raise e), h0 @ [HList (map HStr alerts)])
          | Inr alerts' \<Rightarrow> (Inr (), h0 @ [HList (map HStr alerts')]))"
proof (cases "map_of snapshot ''memory_info''")
  case None
  with category_refines[OF r, of "''memory_info''"] show ?thesis
    by (simp add: check_metric_h_def check_memory_def)
next
  case (Some pv)
  with category_refines[OF r, of "''memory_info''"] obtain v where
    v: "category_h (h0 @ [HList (map HStr alerts)]) health_data ''memory_info''
          = Inr (Some v)"
    and rv: "represents (h0 @ [HList (map HStr alerts)]) v pv" by auto
  show ?thesis
  proof (cases "py_in ''memory_percent'' pv")
    case (Inl e)
    with Some v represents_in[OF rv, of "''memory_percent''"] show ?thesis
      by (simp add: check_metric_h_def check_memory_def)
  next
    case (Inr present)
    with Some v represents_in[OF rv, of "''memory_percent''"]
      check_value_refines[where message = "memory_message fmt"
        and message_h = memory_message_h
        and key = "''memory_percent''" and tkey = "''memory_percent''",
        OF rv t f memory_message_formats]
    show ?thesis by (simp add: check_metric_h_def check_memory_def)
  qed
qed

lemma dict_items_refines:
  assumes "represents h v pv"
  shows "case pv of
           PDict pd \<Rightarrow>
             \<exists>d. h_dict_items h v = Inr (Some d) \<and> map fst d = map fst pd
               \<and> list_all2 (represents h) (map snd d) (map snd pd)
         | _ \<Rightarrow> h_dict_items h v = Inr None"
  using assms
  by (cases rule: represents.cases) (simp_all add: h_dict_items_def deref_def)

lemma check_mount_refines:
  assumes r: "represents (h0 @ [HList (map HStr alerts)]) v pv"
    and t: "thresholds < length h0"
      "h0 ! thresholds = HDict (map (\<lambda>(k, t). (k, HFloat t)) (alert_thresholds self))"
    and f: "\<And>h i. format_h py h (HInt i) = fmt (PInt i)"
      "\<And>h x. format_h py h (HFloat x) = fmt (PFloat x)"
      "\<And>h b. format_h py h (HBool b) = fmt (PBool b)"
  shows "check_mount_h py (HRef thresholds) (m, v) (length h0)
           (h0 @ [HList (map HStr alerts)]) =
         (case check_mount fmt self (m, pv) alerts of
            Inl e \<Rightarrow> (Inl (Raise e), h0 @ [HList (map HStr alerts)])
          | Inr alerts' \<Rightarrow> (Inr (), h0 @ [HList (map HStr alerts')]))"
proof (cases "\<exists>pd. pv = PDict pd")
  case True
  then obtain pd where pd: "pv = PDict pd" by blast
  with dict_items_refines[OF r] obtain d where
    d: "h_dict_items (h0 @ [HList (map HStr alerts)]) v = Inr (Some d)"
    and k: "map fst d = map fst pd" by auto
  from k have "fst ` set d = fst ` set pd" by (metis list.set_map)
  with pd d check_value_refines[where message = "disk_message fmt m"
      and message_h = "disk_message_h m"
      and key = "''percent''" and tkey = "''disk_percent''",
      OF r t f disk_message_formats]
  show ?thesis by (simp add: check_mount_h_def check_mount_def)
next
  case False
  with dict_items_refines[OF r] show ?thesis
    by (cases pv) (simp_all add: check_mount_h_def check_mount_def)
qed

lemma disk_loop_refines:
  assumes t: "thresholds < length h0"
      "h0 ! thresholds = HDict (map (\<lambda>(k, t). (k, HFloat t)) (alert_thresholds self))"
    and f: "\<And>h i. format_h py h (HInt i) = fmt (PInt i)"
      "\<And>h x. format_h py h (HFloat x) = fmt (PFloat x)"
      "\<And>h b. format_h py h (HBool b) = fmt (PBool b)"
  shows "map fst d = map fst pd \<Longrightarrow>
         list_all2 (represents h0) (map snd d) (map snd pd) \<Longrightarrow>
         (case disk_loop fmt self pd alerts of
            Inl e \<Rightarrow> \<exists>alerts'. disk_loop_h py (HRef thresholds) d (length h0)
                        (h0 @ [HList (map HStr alerts)]) =
                      (Inl (Raise e), h0 @ [HList (map HStr alerts')])
          | Inr alerts' \<Rightarrow> disk_loop_h py (HRef thresholds) d (length h0)
                        (h0 @ [HList (map HStr alerts)]) =
                      (Inr (), h0 @ [HList (map HStr alerts')]))"
proof (induction d arbitrary: pd alerts)
  case Nil
  then show ?case by simp
next
  case (Cons x d)
  then obtain y pd' where pd: "pd = y # pd'" by (cases pd) auto
  obtain m v where x: "x = (m, v)" by (cases x)
  obtain m' pv where y: "y = (m', pv)" by (cases y)
  from Cons.prems pd x y have m: "m' = m" and rv0: "represents h0 v pv"
    and rest: "map fst d = map fst pd'" "list_all2 (represents h0) (map snd d) (map snd pd')"
    by auto
  have rv: "represents (h0 @ [HList (map HStr alerts)]) v pv"
    using rv0 by (rule represents_extend) (simp_all add: nth_append)
  note step = check_mount_refines[OF rv t f, where m = m]
  show ?case
  proof (cases "check_mount fmt self (m, pv) alerts")
    case (Inl e)
    with step pd x y m show ?thesis by auto
  next
    case (Inr alerts1)
    with step pd x y m Cons.IH[OF rest, of alerts1] show ?thesis
      by (cases "disk_loop fmt self pd' alerts1") simp_all
  qed
qed

lemma category_h_extend:
  assumes "represents h0 health_data pv"
  shows "category_h (h0 @ xs) health_data c = category_h h0 health_data c"
  using assms
  by (cases rule: represents.cases)
    (simp_all add: category_h_def h_in_def h_getitem_def deref_def nth_append)

lemma dict_items_extend:
  assumes "represents h0 v pv"
  shows "h_dict_items (h0 @ xs) v = h_dict_items h0 v"
  using assms
  by (cases rule: represents.cases) (simp_all add: h_dict_items_def deref_def nth_append)

lemma check_disk_refines:
  assumes r: "represents h0 health_data (PDict snapshot)"
    and t: "thresholds < length h0"
      "h0 ! thresholds = HDict (map (\<lambda>(k, t). (k, HFloat t)) (alert_thresholds self))"
    and f: "\<And>h i. format_h py h (HInt i) = fmt (PInt i)"
      "\<And>h x. format_h py h (HFloat x) = fmt (PFloat x)"
      "\<And>h b. format_h py h (HBool b) = fmt (PBool b)"
  shows "case check_disk fmt self snapshot alerts of
            Inl e \<Rightarrow> \<exists>alerts'. check_disk_h py (HRef thresholds) health_data (length h0)
                        (h0 @ [HList (map HStr alerts)]) =
                      (Inl (Raise e), h0 @ [HList (map HStr alerts')])
          | Inr alerts' \<Rightarrow> check_disk_h py (HRef thresholds) health_data (length h0)
                        (h0 @ [HList (map HStr alerts)]) =
                      (Inr (), h0 @ [HList (map HStr alerts')])"
proof -
  let ?h = "h0 @ [HList (map HStr alerts)]"
  note cat = category_h_extend[OF r, of "[HList (map HStr alerts)]" "''disk_info''"]
  show ?thesis
  proof (cases "map_of snapshot ''disk_info''")
    case None
    with category_refines[OF r, of "''disk_info''"] cat show ?thesis
      by (simp add: check_disk_h_def check_disk_def)
  next
    case (Some pv)
    with category_refines[OF r, of "''disk_info''"] obtain v where
      rv: "represents h0 v pv"
      and c: "category_h h0 health_data ''disk_info'' = Inr (Some v)" by auto
    note items = dict_items_extend[OF rv, of "[HList (map HStr alerts)]"]
    show ?thesis
    proof (cases "\<exists>pd. pv = PDict pd")
      case True
      then obtain pd where pd: "pv = PDict pd" by blast
      from pd dict_items_refines[OF rv] obtain d where
        d: "h_dict_items h0 v = Inr (Some d)" and k: "map fst d = map fst pd"
        and l: "list_all2 (represents h0) (map snd d) (map snd pd)" by auto
      have eh: "check_disk_h py (HRef thresholds) health_data (length h0) ?h =
                  disk_loop_h py (HRef thresholds) d (length h0) ?h"
        using cat c items d by (simp add: check_disk_h_def)
      have ep: "check_disk fmt self snapshot alerts = disk_loop fmt self pd alerts"
        using Some pd by (simp add: check_disk_def)
      show ?thesis unfolding eh ep by (rule disk_loop_refines[OF t f k l])
    next
      case False
      with Some cat c items dict_items_refines[OF rv] show ?thesis
        by (cases pv) (simp_all add: check_disk_h_def check_disk_def)
    qed
  qed
qed

lemma check_alerts_h_refines:
  assumes r: "represents h health_data (PDict snapshot)"
    and t: "thresholds < length h"
      "h ! thresholds = HDict (map (\<lambda>(k, t). (k, HFloat t)) (alert_thresholds self))"
    and f: "\<And>h i. format_h py h (HInt i) = fmt (PInt i)"
      "\<And>h x. format_h py h (HFloat x) = fmt (PFloat x)"
      "\<And>h b. format_h py h (HBool b) = fmt (PBool b)"
  shows "case check_alerts fmt self snapshot of
           Inl e \<Rightarrow> fst (check_alerts_h py (HRef thresholds) health_data h) = Inl (Raise e)
         | Inr alerts \<Rightarrow>
             check_alerts_h py (HRef thresholds) health_data h =
               (Inr (length h), h @ [HList (map HStr alerts)])"
proof -
  have ext: "represents (h @ [HList (map HStr alerts)]) health_data (PDict snapshot)"
    for alerts
    using r by (rule represents_extend) (simp_all add: nth_append)
  note cpu = check_cpu_refines[OF ext[of "[]"] t f, simplified]
  show ?thesis
  proof (cases "check_cpu fmt self snapshot []")
    case (Inl e)
    with cpu show ?thesis by (simp add: check_alerts_h_def check_alerts_def alloc_def)
  next
    case a1: (Inr alerts1)
    note mem = check_memory_refines[OF ext[of alerts1] t f]
    show ?thesis
    proof (cases "check_memory fmt self snapshot alerts1")
      case (Inl e)
      with cpu a1 mem show ?thesis
        by (simp add: check_alerts_h_def check_alerts_def alloc_def)
    next
      case a2: (Inr alerts2)
      note disk = check_disk_refines[OF r t f, where alerts = alerts2]
      from cpu a1 mem a2 disk show ?thesis
        by (cases "check_disk fmt self snapshot alerts2")
          (auto simp: check_alerts_h_def check_alerts_def alloc_def)
    qed
  qed
qed

section \<open>What alert evaluation leaves untouched\<close>

lemma writes_only_to_refl: "writes_only_to a h h"
  by (simp add: writes_only_to_def)

lemma writes_only_to_trans:
  "writes_only_to a h h' \<Longrightarrow> writes_only_to a h' h'' \<Longrightarrow> writes_only_to a h h''"
  by (auto simp: writes_only_to_def)

lemma h_append_writes:
  assumes "h_append h a (HStr s) = (r, h')"
  shows "writes_only_to a h h'"
proof (cases "deref h a")
  case (Inl e)
  with assms show ?thesis by (simp add: h_append_def writes_only_to_refl)
next
  case (Inr obj)
  then have a: "a < length h" and obj: "obj = h ! a"
    by (auto simp: deref_def split: if_splits)
  show ?thesis
  proof (cases obj)
    case (HList xs)
    with assms Inr have h': "h' = h[a := HList (xs @ [HStr s])]"
      by (simp add: h_append_def)
    have "\<exists>msgs'. HList (xs @ [HStr s]) = HList (map HStr msgs')"
      if "h ! a = HList (map HStr msgs)" for msgs
    proof -
      from that obj HList have "xs @ [HStr s] = map HStr (msgs @ [s])" by simp
      then show ?thesis by blast
    qed
    with a show ?thesis unfolding h' writes_only_to_def by auto
  next
    case (HTuple xs)
    with assms Inr show ?thesis by (simp add: h_append_def writes_only_to_refl)
  next
    case (HDict d)
    with assms Inr show ?thesis by (simp add: h_append_def writes_only_to_refl)
  qed
qed

lemma check_value_h_writes:
  assumes "check_value_h py thresholds container key tkey message alerts h = (r, h')"
  shows "writes_only_to alerts h h'"
  using assms h_append_writes[of h alerts _ r h']
  by (auto simp: check_value_h_def writes_only_to_refl
      split: sum.splits prod.splits if_splits)

lemma check_metric_h_writes:
  assumes "check_metric_h py thresholds health_data category key message alerts h = (r, h')"
  shows "writes_only_to alerts h h'"
  using assms check_value_h_writes[of py thresholds _ key key message alerts h r h']
  by (auto simp: check_metric_h_def writes_only_to_refl
      split: sum.splits option.splits)

lemma check_mount_h_writes:
  assumes "check_mount_h py thresholds item alerts h = (r, h')"
  shows "writes_only_to alerts h h'"
  using assms
    check_value_h_writes[of py thresholds "snd item" "''percent''" "''disk_percent''"
      "disk_message_h (fst item)" alerts h r h']
  by (auto simp: check_mount_h_def writes_only_to_refl
      split: sum.splits option.splits prod.splits if_splits)

lemma disk_loop_h_writes:
  "disk_loop_h py thresholds items alerts h = (r, h') \<Longrightarrow> writes_only_to alerts h h'"
proof (induction items arbitrary: h)
  case Nil
  then show ?case by (simp add: writes_only_to_refl)
next
  case (Cons item items)
  obtain r1 h1 where step: "check_mount_h py thresholds item alerts h = (r1, h1)"
    by (cases "check_mount_h py thresholds item alerts h")
  then have w1: "writes_only_to alerts h h1" by (rule check_mount_h_writes)
  show ?case
  proof (cases r1)
    case (Inl e)
    with Cons.prems step have "h' = h1" by simp
    with w1 show ?thesis by simp
  next
    case (Inr u)
    with Cons.prems step have "disk_loop_h py thresholds items alerts h1 = (r, h')"
      by simp
    from w1 Cons.IH[OF this] show ?thesis by (rule writes_only_to_trans)
  qed
qed

lemma check_disk_h_writes:
  assumes "check_disk_h py thresholds health_data alerts h = (r, h')"
  shows "writes_only_to alerts h h'"
  using assms disk_loop_h_writes[of py thresholds _ alerts h r h']
  by (auto simp: check_disk_h_def writes_only_to_refl split: sum.splits option.splits)

lemma check_alerts_h_writes:
  assumes "check_alerts_h py thresholds health_data h = (r, h')"
  shows "writes_only_to (length h) (h @ [HList []]) h' \<and> (\<forall>a. r = Inr a \<longrightarrow> a = length h)"
proof -
  let ?a = "length h" and ?h0 = "h @ [HList []]"
  obtain r1 h1 where s1: "check_metric_h py thresholds health_data ''cpu_info''
      ''cpu_percent'' cpu_message_h ?a ?h0 = (r1, h1)"
    by (cases "check_metric_h py thresholds health_data ''cpu_info''
      ''cpu_percent'' cpu_message_h ?a ?h0")
  then have w1: "writes_only_to ?a ?h0 h1" by (rule check_metric_h_writes)
  show ?thesis
  proof (cases r1)
    case (Inl e)
    with assms s1 w1 show ?thesis by (auto simp: check_alerts_h_def alloc_def)
  next
    case i1: (Inr u1)
    obtain r2 h2 where s2: "check_metric_h py thresholds health_data ''memory_info''
        ''memory_percent'' memory_message_h ?a h1 = (r2, h2)"
      by (cases "check_metric_h py thresholds health_data ''memory_info''
        ''memory_percent'' memory_message_h ?a h1")
    then have "writes_only_to ?a h1 h2" by (rule check_metric_h_writes)
    with w1 have w2: "writes_only_to ?a ?h0 h2" by (rule writes_only_to_trans)
    show ?thesis
    proof (cases r2)
      case (Inl e)
      with assms s1 i1 s2 w2 show ?thesis by (auto simp: check_alerts_h_def alloc_def)
    next
      case i2: (Inr u2)
      obtain r3 h3 where s3: "check_disk_h py thresholds health_data ?a h2 = (r3, h3)"
        by (cases "check_disk_h py thresholds health_data ?a h2")
      then have "writes_only_to ?a h2 h3" by (rule check_disk_h_writes)
      with w2 have w3: "writes_only_to ?a ?h0 h3" by (rule writes_only_to_trans)
      from assms s1 i1 s2 i2 s3 w3 show ?thesis
        by (cases r3) (auto simp: check_alerts_h_def alloc_def)
    qed
  qed
qed

lemma check_alerts_h_frame:
  assumes "check_alerts_h py thresholds health_data h = (r, h')"
  shows "take (length h) h' = h" and "length h' = Suc (length h)"
    and "\<exists>msgs. h' ! length h = HList (map HStr msgs)"
    and "\<forall>alerts. r = Inr alerts \<longrightarrow> alerts = length h"
proof -
  from check_alerts_h_writes[OF assms]
  have w: "writes_only_to (length h) (h @ [HList []]) h'"
    and a: "\<forall>a. r = Inr a \<longrightarrow> a = length h" by blast+
  from w show len: "length h' = Suc (length h)" by (simp add: writes_only_to_def)
  from w have same: "\<forall>p<length h. h' ! p = h ! p"
    by (auto simp: writes_only_to_def nth_append)
  with len show "take (length h) h' = h"
    by (intro nth_equalityI) simp_all
  have "(h @ [HList []]) ! length h = HList (map HStr [])" by simp
  with w show "\<exists>msgs. h' ! length h = HList (map HStr msgs)"
    unfolding writes_only_to_def by blast
  from a show "\<forall>alerts. r = Inr alerts \<longrightarrow> alerts = length h" .
qed

lemma scenario_run:
  "check_alerts_h example_runtime_h (HRef 0) (HRef 1) scenario_heap =
     (Inr 7,
      scenario_heap @ [HList [HStr ''HIGH CPU USAGE: #% (threshold: #%)'',
                              HStr ''HIGH DISK USAGE: / at #% (threshold: #%)'']])"
  by (simp add: scenario_heap_def check_alerts_h_def alloc_def check_metric_h_def
      check_disk_h_def check_mount_h_def check_value_h_def category_h_def h_in_def
      h_getitem_def h_dict_items_def h_gt_def h_number_def h_append_def
      deref_def example_runtime_h_def cpu_message_h_def memory_message_h_def
      disk_message_h_def)

text \<open>
  C10. \<^verbatim>\<open>check_alerts\<close> only reads its input: whether it returns or raises, whatever the
  health data and the thresholds are, every object that existed before the call (the
  health data, everything it refers to, the threshold mapping) is unchanged afterwards;
  the one new object is the alert list, a list of strings at a fresh address, and that
  address is what the function returns.
\<close>

theorem check_alerts_h_read_only:
  assumes "check_alerts_h py thresholds health_data h = (r, h')"
  shows "take (length h) h' = h
     \<and> length h' = Suc (length h)
     \<and> (\<exists>msgs. h' ! length h = HList (map HStr msgs))
     \<and> (\<forall>alerts. r = Inr alerts \<longrightarrow> alerts = length h)"
  using check_alerts_h_frame[OF assms] by blast

theorem check_alerts_h_read_only_witness:
  "check_alerts_h example_runtime_h (HRef 0) (HRef 1) int_threshold_heap =
     (Inl (Raise (KeyError ''memory_percent'')),
      int_threshold_heap @ [HList [HStr ''HIGH CPU USAGE: #% (threshold: #%)'']])
   \<and> take (length int_threshold_heap)
        (int_threshold_heap @ [HList [HStr ''HIGH CPU USAGE: #% (threshold: #%)'']])
       = int_threshold_heap
   \<and> check_alerts_h example_runtime_h (HRef 0) (HRef 1) scenario_heap =
       (Inr 7,
        scenario_heap @ [HList [HStr ''HIGH CPU USAGE: #% (threshold: #%)'',
                                HStr ''HIGH DISK USAGE: / at #% (threshold: #%)'']])
   \<and> take (length scenario_heap)
        (scenario_heap @ [HList [HStr ''HIGH CPU USAGE: #% (threshold: #%)'',
                                 HStr ''HIGH DISK USAGE: / at #% (threshold: #%)'']])
       = scenario_heap
   \<and> (7::nat) = length scenario_heap"
proof -
  have run: "check_alerts_h example_runtime_h (HRef 0) (HRef 1) int_threshold_heap =
     (Inl (Raise (KeyError ''memory_percent'')),
      int_threshold_heap @ [HList [HStr ''HIGH CPU USAGE: #% (threshold: #%)'']])"
    by (simp add: int_threshold_heap_def check_alerts_h_def alloc_def check_metric_h_def
        check_value_h_def category_h_def h_in_def h_getitem_def h_gt_def h_number_def
        h_append_def deref_def example_runtime_h_def cpu_message_h_def)
  from check_alerts_h_read_only[OF run] check_alerts_h_read_only[OF scenario_run]
    run scenario_run
  show ?thesis by simp
qed

text \<open>
  C6, as the code has it. A monitor constructed with no mapping or with an empty one
  holds the defaults cpu = 80, memory = 85, disk = 90; a monitor constructed with a
  non-empty mapping holds exactly that mapping, with no default for a category the mapping
  leaves out. Alert evaluation, the one method that uses the thresholds, leaves the
  threshold mapping as it was, whatever it holds and whether the evaluation returns or
  raises.
\<close>

theorem init_thresholds:
  "alert_thresholds (init None) =
     [(''cpu_percent'', 80), (''memory_percent'', 85), (''disk_percent'', 90)]
   \<and> (d = [] \<longrightarrow>
        alert_thresholds (init (Some d)) =
          [(''cpu_percent'', 80), (''memory_percent'', 85), (''disk_percent'', 90)])
   \<and> (d \<noteq> [] \<longrightarrow> alert_thresholds (init (Some d)) = d)
   \<and> (thresholds < length h \<longrightarrow>
        snd (check_alerts_h py (HRef thresholds) health_data h) ! thresholds
          = h ! thresholds)"
proof -
  have "snd (check_alerts_h py (HRef thresholds) health_data h) ! thresholds
          = h ! thresholds"
    if t: "thresholds < length h"
  proof -
    obtain r h' where
      run: "check_alerts_h py (HRef thresholds) health_data h = (r, h')"
      by (cases "check_alerts_h py (HRef thresholds) health_data h")
    from check_alerts_h_frame(1)[OF run]
    have "take (length h) h' ! thresholds = h ! thresholds" by simp
    with t run show ?thesis by simp
  qed
  then show ?thesis by (simp add: init_def default_thresholds_def)
qed

theorem init_thresholds_witness:
  "[(''cpu_percent'', 50::rat)] \<noteq> []
   \<and> alert_thresholds (init (Some [(''cpu_percent'', 50)])) = [(''cpu_percent'', 50)]
   \<and> alert_thresholds (init (Some [])) =
       [(''cpu_percent'', 80), (''memory_percent'', 85), (''disk_percent'', 90)]
   \<and> (0::nat) < length int_threshold_heap
   \<and> snd (check_alerts_h example_runtime_h (HRef 0) (HRef 1) int_threshold_heap) ! 0
       = HDict [(''cpu_percent'', HInt 50)]"
proof -
  have l: "(0::nat) < length int_threshold_heap" by (simp add: int_threshold_heap_def)
  have z: "int_threshold_heap ! 0 = HDict [(''cpu_percent'', HInt 50)]"
    by (simp add: int_threshold_heap_def)
  from init_thresholds[where d = "[(''cpu_percent'', 50)]" and thresholds = 0
      and h = int_threshold_heap and py = example_runtime_h and health_data = "HRef 1"]
    init_thresholds[where d = "[]" and thresholds = 0
      and h = int_threshold_heap and py = example_runtime_h and health_data = "HRef 1"]
    l z
  show ?thesis by simp
qed

text \<open>
  The claim as stated fails: a mapping that gives the CPU threshold only leaves the
  monitor without a memory threshold and without a disk threshold, where the claim has
  the defaults 85 and 90; looking one up raises \<^verbatim>\<open>KeyError\<close>.
\<close>

theorem init_partial_mapping_counterexample:
  "threshold (init (Some [(''cpu_percent'', 50)])) ''cpu_percent'' = Inr 50
   \<and> threshold (init (Some [(''cpu_percent'', 50)])) ''memory_percent''
       = Inl (KeyError ''memory_percent'')
   \<and> threshold (init (Some [(''cpu_percent'', 50)])) ''disk_percent''
       = Inl (KeyError ''disk_percent'')"
  by (simp add: init_def threshold_def)

end
